theory Spec2Isabelle
  imports Complex_Main
begin

section \<open>Errors raised by the detection script\<close>

text \<open>
  The exceptions that the code of \<^verbatim>\<open>data_filtering.py\<close> can meet, as values.
  Every one of them is an instance of Python's \<^verbatim>\<open>Exception\<close>.
\<close>

datatype error =
    LinAlgError      \<comment> \<open>\<^verbatim>\<open>np.linalg.inv\<close> of a singular matrix\<close>
  | IndexError       \<comment> \<open>a list read out of range\<close>
  | TypeError        \<comment> \<open>\<^verbatim>\<open>float(None)\<close>\<close>
  | DatabaseError    \<comment> \<open>a psycopg2 statement or commit that fails\<close>
  | ModelError       \<comment> \<open>the classifier's \<^verbatim>\<open>fit\<close> or \<^verbatim>\<open>predict\<close> raising\<close>
  | MqttError        \<comment> \<open>\<^verbatim>\<open>mqtt_client.publish\<close> raising\<close>
  | FileError        \<comment> \<open>\<^verbatim>\<open>pd.read_csv\<close> raising\<close>

section \<open>The scalar Kalman filter\<close>

text \<open>
  Class \<^verbatim>\<open>KalmanFilter\<close>. Every matrix of the source is 1x1, so each field is a
  scalar; transposition is the identity and \<^verbatim>\<open>np.eye(1)\<close> is 1. Python floats are
  read as exact reals.
\<close>

record kalman_filter =
  kf_F :: real
  kf_H :: real
  kf_Q :: real
  kf_R :: real
  kf_P :: real
  kf_x :: real

definition predict :: "kalman_filter \<Rightarrow> kalman_filter" where
  "predict k = k\<lparr>kf_x := kf_F k * kf_x k,
                 kf_P := kf_F k * kf_P k * kf_F k + kf_Q k\<rparr>"

definition innovation_cov :: "kalman_filter \<Rightarrow> real" where
  "innovation_cov k = kf_H k * (kf_P k * kf_H k) + kf_R k"

text \<open>\<^verbatim>\<open>np.linalg.inv\<close> on a 1x1 matrix: raises on a singular one.\<close>

definition linalg_inv :: "real \<Rightarrow> error + real" where
  "linalg_inv S = (if S = 0 then Inl LinAlgError else Inr (1 / S))"

definition kalman_gain :: "kalman_filter \<Rightarrow> error + real" where
  "kalman_gain k =
     (case linalg_inv (innovation_cov k) of
        Inl e \<Rightarrow> Inl e
      | Inr Sinv \<Rightarrow> Inr (kf_P k * kf_H k * Sinv))"

definition update :: "kalman_filter \<Rightarrow> real \<Rightarrow> error + kalman_filter" where
  "update k z =
     (case kalman_gain k of
        Inl e \<Rightarrow> Inl e
      | Inr K \<Rightarrow>
          let y = z - kf_H k * kf_x k
          in Inr (k\<lparr>kf_x := kf_x k + K * y,
                    kf_P := (1 - K * kf_H k) * kf_P k\<rparr>))"

definition initialize_kalman_filter :: "string \<Rightarrow> string \<Rightarrow> kalman_filter" where
  "initialize_kalman_filter sensor_type feature =
     (let x0 =
        (if sensor_type = ''sound'' then
           (if feature = ''rms'' then 0.008
            else if feature = ''zcr'' then 0.010
            else 0)
         else if sensor_type = ''light'' \<and> feature = ''light_level'' then 12
         else 0)
      in \<lparr>kf_F = 1, kf_H = 1, kf_Q = 0.05, kf_R = 0.1, kf_P = 1, kf_x = x0\<rparr>)"

text \<open>
  Lines 270 to 272 of \<^verbatim>\<open>run_detection\<close>, for one feature: predict, update with the
  reading, then the residual between the new estimate and the reading. The filter
  object is mutated in place, so a failing update leaves the predicted filter behind.
\<close>

definition track_feature :: "kalman_filter \<Rightarrow> real \<Rightarrow> (error + real) \<times> kalman_filter" where
  "track_feature k val =
     (let k1 = predict k
      in case update k1 val of
           Inl e \<Rightarrow> (Inl e, k1)
         | Inr k2 \<Rightarrow> (Inr \<bar>kf_x k2 - val\<bar>, k2))"

text \<open>Any sequence of calls on one filter object; a failing update ends it.\<close>

datatype kf_call = Predict | Update real

fun run_calls :: "kalman_filter \<Rightarrow> kf_call list \<Rightarrow> error + kalman_filter" where
  "run_calls k [] = Inr k"
| "run_calls k (Predict # cs) = run_calls (predict k) cs"
| "run_calls k (Update z # cs) =
     (case update k z of Inl e \<Rightarrow> Inl e | Inr k' \<Rightarrow> run_calls k' cs)"



definition random_walk :: "kalman_filter \<Rightarrow> bool" where
  "random_walk k \<longleftrightarrow>
     kf_F k = 1 \<and> kf_H k = 1 \<and> 0 < kf_Q k \<and> 0 < kf_R k \<and> 0 < kf_P k"

section \<open>The collaborators of a detection pass\<close>

type_synonym timestamp = nat

text \<open>A feature column of a fetched row: a number, or SQL NULL (Python \<^verbatim>\<open>None\<close>).\<close>

datatype cell = Numeric real | Null

record reading_row =
  r_id :: int
  r_patient_id :: int
  r_values :: "cell list"
  r_timestamp :: timestamp

text \<open>A row of table \<^verbatim>\<open>anomalies\<close>, with the columns of the INSERT statements.\<close>

record anomaly =
  an_patient_id :: int
  an_sensor_type :: string
  an_db :: "real option"
  an_rms :: "real option"
  an_zcr :: "real option"
  an_detection_method :: string
  an_timestamp :: timestamp

text \<open>
  The first prediction of a fitted Isolation Forest on one sample: \<open>-1\<close> for an
  outlier, \<open>1\<close> for an inlier. The forest itself is outside the script.
\<close>

type_synonym model = "real list \<Rightarrow> int"

text \<open>
  The places of \<^verbatim>\<open>run_detection\<close> where a call into the database, the model or the
  broker may raise, the \<^verbatim>\<open>conn.rollback()\<close> of the exception handler among them. A
  pass is given the set of the places that fail, and the row that the SELECT on the
  readings table returns.
\<close>

datatype fault_point =
    AtFetch | AtExists | AtPredict
  | AtInsertIF | AtCommitIF | AtInsertKF | AtCommitKF
  | AtPublishMove | AtPublishAlert
  | AtRollback

record env =
  latest :: "reading_row option"
  faults :: "fault_point set"

datatype query =
    Fetch string "string list"
  | Exists timestamp string
  | Classify "real list"

datatype payload = MoveCommand int int | AlertText string

text \<open>
  The two module-level flags, the table \<^verbatim>\<open>anomalies\<close> (committed rows, and the rows
  of the open transaction), the messages published on the broker, the read-only calls
  made so far, and the exception that has left \<^verbatim>\<open>run_detection\<close>, if any. Nothing in
  the script catches such an exception (the loop is only guarded against
  \<^verbatim>\<open>KeyboardInterrupt\<close>), so it ends the script.
\<close>

record world =
  robot_moved :: bool
  abnormal_detected :: bool
  anomalies :: "anomaly list"
  pending :: "anomaly list"
  published :: "(string \<times> payload) list"
  queries :: "query list"
  uncaught :: "error option"

text \<open>The two local flags of a pass as they stand when it ends, and the exception caught.\<close>

record verdicts =
  isolation_forest_abnormal :: bool
  kalman_filter_abnormal :: bool
  caught :: "error option"

definition db_insert :: "fault_point \<Rightarrow> env \<Rightarrow> anomaly \<Rightarrow> world \<Rightarrow> (error + unit) \<times> world" where
  "db_insert fp e a w =
     (if fp \<in> faults e then (Inl DatabaseError, w)
      else (Inr (), w\<lparr>pending := pending w @ [a]\<rparr>))"

definition db_commit :: "fault_point \<Rightarrow> env \<Rightarrow> world \<Rightarrow> (error + unit) \<times> world" where
  "db_commit fp e w =
     (if fp \<in> faults e then (Inl DatabaseError, w)
      else (Inr (), w\<lparr>anomalies := anomalies w @ pending w, pending := []\<rparr>))"

text \<open>
  \<^verbatim>\<open>conn.rollback()\<close>. It raises when the connection is lost; the rows of the open
  transaction are then lost with the connection, and can never be committed.
\<close>

definition db_rollback :: "env \<Rightarrow> world \<Rightarrow> (error + unit) \<times> world" where
  "db_rollback e w =
     (if AtRollback \<in> faults e then (Inl DatabaseError, w\<lparr>pending := []\<rparr>)
      else (Inr (), w\<lparr>pending := []\<rparr>))"

text \<open>An INSERT followed by \<^verbatim>\<open>conn.commit()\<close>.\<close>

definition insert_commit ::
  "fault_point \<Rightarrow> fault_point \<Rightarrow> env \<Rightarrow> anomaly \<Rightarrow> world \<Rightarrow> (error + unit) \<times> world" where
  "insert_commit fi fc e a w =
     (case db_insert fi e a w of
        (Inl err, w1) \<Rightarrow> (Inl err, w1)
      | (Inr u, w1) \<Rightarrow> db_commit fc e w1)"

definition fetch_latest ::
  "env \<Rightarrow> string \<Rightarrow> string list \<Rightarrow> world \<Rightarrow> (error + reading_row option) \<times> world" where
  "fetch_latest e table columns w =
     (if columns = [] then (Inl IndexError, w)
      else
        let w1 = w\<lparr>queries := queries w @ [Fetch table columns]\<rparr>
        in if AtFetch \<in> faults e then (Inl DatabaseError, w1) else (Inr (latest e), w1))"

definition count_existing ::
  "env \<Rightarrow> timestamp \<Rightarrow> string \<Rightarrow> world \<Rightarrow> (error + nat) \<times> world" where
  "count_existing e ts sensor_type w =
     (let w1 = w\<lparr>queries := queries w @ [Exists ts sensor_type]\<rparr>
      in if AtExists \<in> faults e then (Inl DatabaseError, w1)
         else (Inr (length (filter (\<lambda>a. an_timestamp a = ts \<and> an_sensor_type a = sensor_type)
                              (anomalies w @ pending w))), w1))"

fun to_floats :: "cell list \<Rightarrow> error + real list" where
  "to_floats [] = Inr []"
| "to_floats (Null # cs) = Inl TypeError"
| "to_floats (Numeric v # cs) =
     (case to_floats cs of Inl err \<Rightarrow> Inl err | Inr vs \<Rightarrow> Inr (v # vs))"

definition nth_or_none :: "real list \<Rightarrow> nat \<Rightarrow> real option" where
  "nth_or_none values i = (if length values > i then Some (values ! i) else None)"

section \<open>The detection pass\<close>

subsection \<open>Isolation Forest section\<close>

text \<open>
  The loop over \<^verbatim>\<open>enumerate(values)\<close> that counts the sound features outside their
  band; \<^verbatim>\<open>columns[i]\<close> raises when \<open>i\<close> is out of range.
\<close>

fun band_count :: "string list \<Rightarrow> nat \<Rightarrow> real list \<Rightarrow> nat \<Rightarrow> error + nat" where
  "band_count columns i [] abnormal_count = Inr abnormal_count"
| "band_count columns i (val # vals) abnormal_count =
     (if length columns \<le> i then Inl IndexError
      else band_count columns (Suc i) vals
             (if (columns ! i = ''rms'' \<and> (val < 0.01 \<or> val > 0.03)) \<or>
                 (columns ! i = ''zcr'' \<and> (val < 0.003 \<or> val > 0.02))
              then Suc abnormal_count else abnormal_count))"

definition isolation_forest_check ::
  "string \<Rightarrow> string list \<Rightarrow> model \<Rightarrow> env \<Rightarrow> reading_row \<Rightarrow> real list \<Rightarrow> world
     \<Rightarrow> (error + bool) \<times> world" where
  "isolation_forest_check sensor_type columns mdl e row values w =
     (let w1 = w\<lparr>queries := queries w @ [Classify values]\<rparr>
      in if AtPredict \<in> faults e then (Inl ModelError, w1)
         else if mdl values = - 1 then
           (if sensor_type = ''sound'' then
              (case band_count columns 0 values 0 of
                 Inl err \<Rightarrow> (Inl err, w1)
               | Inr abnormal_count \<Rightarrow>
                   if abnormal_count = length columns then
                     (case insert_commit AtInsertIF AtCommitIF e
                             \<lparr>an_patient_id = r_patient_id row, an_sensor_type = sensor_type,
                              an_db = None, an_rms = nth_or_none values 0,
                              an_zcr = nth_or_none values 1,
                              an_detection_method = ''Isolation Forest'',
                              an_timestamp = r_timestamp row\<rparr> w1 of
                        (Inl err, w2) \<Rightarrow> (Inl err, w2)
                      | (Inr u, w2) \<Rightarrow> (Inr True, w2))
                   else (Inr False, w1))
            else if sensor_type = ''light'' then
              (if values = [] then (Inl IndexError, w1)
               else
                 (case insert_commit AtInsertIF AtCommitIF e
                         \<lparr>an_patient_id = r_patient_id row, an_sensor_type = ''light'',
                          an_db = None, an_rms = None, an_zcr = None,
                          an_detection_method = ''Isolation Forest'',
                          an_timestamp = r_timestamp row\<rparr> w1 of
                    (Inl err, w2) \<Rightarrow> (Inl err, w2)
                  | (Inr u, w2) \<Rightarrow> (Inr True, w2)))
            else (Inr False, w1))
         else (Inr False, w1))"

subsection \<open>Kalman Filter section\<close>

definition threshold :: "string \<Rightarrow> real" where
  "threshold column =
     (if column = ''rms'' then 0.001 else if column = ''zcr'' then 0.001 else 1)"

text \<open>
  The loop over \<^verbatim>\<open>enumerate(values)\<close>: the filter objects of \<^verbatim>\<open>kf_list\<close> are mutated
  in place, so the list is returned as it stands when the loop ends or raises.
\<close>

fun kalman_loop ::
  "string list \<Rightarrow> nat \<Rightarrow> real list \<Rightarrow> kalman_filter list \<Rightarrow> nat
     \<Rightarrow> (error + nat) \<times> kalman_filter list" where
  "kalman_loop columns i [] kf_list abnormal_count = (Inr abnormal_count, kf_list)"
| "kalman_loop columns i (val # vals) kf_list abnormal_count =
     (if length kf_list \<le> i then (Inl IndexError, kf_list)
      else
        (case track_feature (kf_list ! i) val of
           (Inl err, k1) \<Rightarrow> (Inl err, kf_list[i := k1])
         | (Inr residual, k2) \<Rightarrow>
             if length columns \<le> i then (Inl IndexError, kf_list[i := k2])
             else kalman_loop columns (Suc i) vals (kf_list[i := k2])
                    (if residual > threshold (columns ! i)
                     then Suc abnormal_count else abnormal_count)))"

definition kalman_check ::
  "string \<Rightarrow> string list \<Rightarrow> env \<Rightarrow> reading_row \<Rightarrow> real list \<Rightarrow> kalman_filter list \<Rightarrow> world
     \<Rightarrow> (error + bool) \<times> kalman_filter list \<times> world" where
  "kalman_check sensor_type columns e row values kf_list w =
     (case kalman_loop columns 0 values kf_list 0 of
        (Inl err, kfs) \<Rightarrow> (Inl err, kfs, w)
      | (Inr abnormal_count, kfs) \<Rightarrow>
          if abnormal_count = length columns then
            (case insert_commit AtInsertKF AtCommitKF e
                    \<lparr>an_patient_id = r_patient_id row, an_sensor_type = sensor_type,
                     an_db = None, an_rms = nth_or_none values 0,
                     an_zcr = nth_or_none values 1,
                     an_detection_method = ''Kalman Filter'',
                     an_timestamp = r_timestamp row\<rparr> w of
               (Inl err, w1) \<Rightarrow> (Inl err, kfs, w1)
             | (Inr u, w1) \<Rightarrow> (Inr True, kfs, w1))
          else (Inr False, kfs, w))"

subsection \<open>Acting when both detectors agree\<close>

definition mqtt_publish ::
  "fault_point \<Rightarrow> env \<Rightarrow> string \<Rightarrow> payload \<Rightarrow> world \<Rightarrow> (error + unit) \<times> world" where
  "mqtt_publish fp e topic msg w =
     (if fp \<in> faults e then (Inl MqttError, w)
      else (Inr (), w\<lparr>published := published w @ [(topic, msg)]\<rparr>))"

definition act_when_both_agree ::
  "string \<Rightarrow> bool \<Rightarrow> bool \<Rightarrow> env \<Rightarrow> world \<Rightarrow> (error + unit) \<times> world" where
  "act_when_both_agree sensor_type if_abn kf_abn e w =
     (if sensor_type = ''sound'' \<and> if_abn \<and> kf_abn then
        (if \<not> robot_moved w then
           (let w1 = w\<lparr>abnormal_detected := True, robot_moved := True\<rparr>
            in case mqtt_publish AtPublishMove e ''robot/move'' (MoveCommand 0 1) w1 of
                 (Inl err, w2) \<Rightarrow> (Inl err, w2)
               | (Inr u, w2) \<Rightarrow>
                   mqtt_publish AtPublishAlert e ''web/alert''
                     (AlertText ''Patient abnormal sound detected!'') w2)
         else (Inr (), w))
      else (Inr (), w))"

subsection \<open>The pass\<close>

definition no_verdict :: "error option \<Rightarrow> verdicts" where
  "no_verdict c =
     \<lparr>isolation_forest_abnormal = False, kalman_filter_abnormal = False, caught = c\<rparr>"

text \<open>The body of the \<^verbatim>\<open>try\<close> block after the check of \<^verbatim>\<open>abnormal_detected\<close>.\<close>

definition detection_body ::
  "string \<Rightarrow> string list \<Rightarrow> string \<Rightarrow> model \<Rightarrow> kalman_filter list \<Rightarrow> env \<Rightarrow> world
     \<Rightarrow> verdicts \<times> kalman_filter list \<times> world" where
  "detection_body sensor_type columns table mdl kf_list e w =
     (case fetch_latest e table columns w of
        (Inl err, w1) \<Rightarrow> (no_verdict (Some err), kf_list, w1)
      | (Inr None, w1) \<Rightarrow> (no_verdict None, kf_list, w1)
      | (Inr (Some row), w1) \<Rightarrow>
          (case count_existing e (r_timestamp row) sensor_type w1 of
             (Inl err, w2) \<Rightarrow> (no_verdict (Some err), kf_list, w2)
           | (Inr n, w2) \<Rightarrow>
               if n > 0 then (no_verdict None, kf_list, w2)
               else
                 (case to_floats (r_values row) of
                    Inl err \<Rightarrow> (no_verdict (Some err), kf_list, w2)
                  | Inr values \<Rightarrow>
                      (case isolation_forest_check sensor_type columns mdl e row values w2 of
                         (Inl err, w3) \<Rightarrow> (no_verdict (Some err), kf_list, w3)
                       | (Inr if_abn, w3) \<Rightarrow>
                           (case kalman_check sensor_type columns e row values kf_list w3 of
                              (Inl err, kfs, w4) \<Rightarrow>
                                (\<lparr>isolation_forest_abnormal = if_abn,
                                  kalman_filter_abnormal = False,
                                  caught = Some err\<rparr>, kfs, w4)
                            | (Inr kf_abn, kfs, w4) \<Rightarrow>
                                (case act_when_both_agree sensor_type if_abn kf_abn e w4 of
                                   (Inl err, w5) \<Rightarrow>
                                     (\<lparr>isolation_forest_abnormal = if_abn,
                                       kalman_filter_abnormal = kf_abn,
                                       caught = Some err\<rparr>, kfs, w5)
                                 | (Inr u, w5) \<Rightarrow>
                                     (\<lparr>isolation_forest_abnormal = if_abn,
                                       kalman_filter_abnormal = kf_abn,
                                       caught = None\<rparr>, kfs, w5)))))))"

text \<open>
  \<^verbatim>\<open>run_detection\<close>: the early return on \<^verbatim>\<open>abnormal_detected\<close>, the body, and the
  handler of \<^verbatim>\<open>except Exception\<close>, which rolls the open transaction back. The
  rollback is not guarded: an exception that it raises leaves the function, and is
  recorded in the world. The function returns nothing in the source; the model returns
  the local flags, the filter list and the world as the call leaves them.
\<close>

definition run_detection ::
  "string \<Rightarrow> string list \<Rightarrow> string \<Rightarrow> model \<Rightarrow> kalman_filter list \<Rightarrow> env \<Rightarrow> world
     \<Rightarrow> verdicts \<times> kalman_filter list \<times> world" where
  "run_detection sensor_type columns table mdl kf_list e w =
     (if abnormal_detected w then (no_verdict None, kf_list, w)
      else
        (case detection_body sensor_type columns table mdl kf_list e w of
           (v, kfs, w1) \<Rightarrow>
             (case caught v of
                Some err \<Rightarrow>
                  (case db_rollback e w1 of
                     (Inl err2, w2) \<Rightarrow> (v, kfs, w2\<lparr>uncaught := Some err2\<rparr>)
                   | (Inr u, w2) \<Rightarrow> (v, kfs, w2))
              | None \<Rightarrow> (v, kfs, w1))))"

section \<open>Training, and the script around the pass\<close>

record config =
  cfg_columns :: "string list"
  cfg_csv_file :: string
  cfg_training_source :: string

definition sensor_config :: "(string \<times> config) list" where
  "sensor_config =
     [(''light'', \<lparr>cfg_columns = [''light_level''], cfg_csv_file = ''trainingData.csv'',
                   cfg_training_source = ''csv''\<rparr>),
      (''sound'', \<lparr>cfg_columns = [''rms'', ''zcr''], cfg_csv_file = ''trainingData.csv'',
                   cfg_training_source = ''csv''\<rparr>)]"

text \<open>
  A row of the training CSV. An empty numeric cell is read by pandas as NaN, which
  fails every comparison: it is \<open>None\<close> here.
\<close>

record csv_row =
  csv_label :: string
  csv_rms :: "real option"
  csv_zcr :: "real option"
  csv_light_level :: "real option"

definition between :: "real option \<Rightarrow> real \<Rightarrow> real \<Rightarrow> bool" where
  "between c lo hi = (case c of None \<Rightarrow> False | Some v \<Rightarrow> v \<ge> lo \<and> v \<le> hi)"

text \<open>The rows that \<^verbatim>\<open>train_model\<close> keeps: labelled normal, and inside the range.\<close>

definition normal_rows :: "string \<Rightarrow> csv_row list \<Rightarrow> csv_row list" where
  "normal_rows sensor_name df =
     (let df1 = filter (\<lambda>r. csv_label r = ''normal'') df
      in if sensor_name = ''sound'' then
           filter (\<lambda>r. between (csv_rms r) 0.001 0.03 \<and> between (csv_zcr r) 0.009 0.04) df1
         else if sensor_name = ''light'' then
           filter (\<lambda>r. between (csv_light_level r) 0 25) df1
         else df1)"

definition column_of :: "string \<Rightarrow> (csv_row \<Rightarrow> real option) option" where
  "column_of name =
     (if name = ''rms'' then Some csv_rms
      else if name = ''zcr'' then Some csv_zcr
      else if name = ''light_level'' then Some csv_light_level
      else None)"

text \<open>\<^verbatim>\<open>df[cfg["columns"]].values\<close>: a KeyError when a column is not in the file.\<close>

fun select_columns :: "string list \<Rightarrow> (csv_row \<Rightarrow> real option) list option" where
  "select_columns [] = Some []"
| "select_columns (c # cs) =
     (case column_of c of
        None \<Rightarrow> None
      | Some g \<Rightarrow> (case select_columns cs of None \<Rightarrow> None | Some gs \<Rightarrow> Some (g # gs)))"

type_synonym fit = "real option list list \<Rightarrow> error + model"

definition fit_if_enough :: "fit \<Rightarrow> real option list list \<Rightarrow> model option" where
  "fit_if_enough fit_fn values =
     (if length values \<ge> 3 then
        (case fit_fn values of Inl err \<Rightarrow> None | Inr m \<Rightarrow> Some m)
      else None)"

text \<open>
  \<^verbatim>\<open>train_model\<close>: every exception inside is caught and gives \<^verbatim>\<open>None\<close>. The file
  system (\<^verbatim>\<open>pd.read_csv\<close>) and \<^verbatim>\<open>IsolationForest.fit\<close> are parameters.
\<close>

definition train_model ::
  "string \<Rightarrow> config \<Rightarrow> (string \<Rightarrow> error + csv_row list) \<Rightarrow> fit \<Rightarrow> model option" where
  "train_model sensor_name cfg read_csv fit_fn =
     (if cfg_training_source cfg = ''csv'' then
        (case read_csv (cfg_csv_file cfg) of
           Inl err \<Rightarrow> None
         | Inr df \<Rightarrow>
             (case select_columns (cfg_columns cfg) of
                None \<Rightarrow> None
              | Some gs \<Rightarrow>
                  fit_if_enough fit_fn
                    (map (\<lambda>r. map (\<lambda>g. g r) gs) (normal_rows sensor_name df))))
      else fit_if_enough fit_fn [])"

text \<open>The dictionary \<^verbatim>\<open>kalman_filters\<close> as the script builds it.\<close>

definition initial_kalman_filters :: "string \<Rightarrow> kalman_filter list" where
  "initial_kalman_filters sensor =
     (case map_of sensor_config sensor of
        None \<Rightarrow> []
      | Some cfg \<Rightarrow> map (initialize_kalman_filter sensor) (cfg_columns cfg))"

text \<open>The dictionary \<^verbatim>\<open>models\<close>: a sensor whose training gave \<^verbatim>\<open>None\<close> has no entry.\<close>

definition models ::
  "(string \<Rightarrow> error + csv_row list) \<Rightarrow> fit \<Rightarrow> string \<Rightarrow> model option" where
  "models read_csv fit_fn sensor =
     (case map_of sensor_config sensor of
        None \<Rightarrow> None
      | Some cfg \<Rightarrow> train_model sensor cfg read_csv fit_fn)"

text \<open>
  The state that outlives a pass: the dictionary of filter lists, and the world. One
  call of \<^verbatim>\<open>run_detection\<close> on the list \<^verbatim>\<open>kalman_filters[sensor]\<close> writes the
  mutated list back.
\<close>

type_synonym system = "(string \<Rightarrow> kalman_filter list) \<times> world"

record pass_input =
  p_sensor :: string
  p_columns :: "string list"
  p_model :: model
  p_env :: env

definition detection_pass :: "pass_input \<Rightarrow> system \<Rightarrow> system" where
  "detection_pass p st =
     (case run_detection (p_sensor p) (p_columns p) ''smart_room_readings'' (p_model p)
             (fst st (p_sensor p)) (p_env p) (snd st) of
        (v, kfs, w) \<Rightarrow> ((fst st)(p_sensor p := kfs), w))"

text \<open>
  A sequence of passes, as a scheduler would make them: an exception that leaves a
  pass ends the sequence.
\<close>

fun run_passes :: "pass_input list \<Rightarrow> system \<Rightarrow> system" where
  "run_passes [] st = st"
| "run_passes (p # ps) st =
     (let st1 = detection_pass p st
      in if uncaught (snd st1) = None then run_passes ps st1 else st1)"

text \<open>
  The main loop: one pass for each configured sensor that has a model. An exception
  that leaves \<^verbatim>\<open>run_detection\<close> leaves the loop too.
\<close>

fun main_loop ::
  "(string \<Rightarrow> model option) \<Rightarrow> (string \<Rightarrow> env) \<Rightarrow> (string \<times> config) list \<Rightarrow> system \<Rightarrow> system" where
  "main_loop mdls envs [] st = st"
| "main_loop mdls envs ((sensor, cfg) # rest) st =
     (case mdls sensor of
        None \<Rightarrow> main_loop mdls envs rest st
      | Some m \<Rightarrow>
          (let st1 = detection_pass \<lparr>p_sensor = sensor, p_columns = cfg_columns cfg,
                                     p_model = m, p_env = envs sensor\<rparr> st
           in if uncaught (snd st1) = None then main_loop mdls envs rest st1 else st1))"

definition initial_world :: "anomaly list \<Rightarrow> world" where
  "initial_world table =
     \<lparr>robot_moved = False, abnormal_detected = False, anomalies = table, pending = [],
      published = [], queries = [], uncaught = None\<rparr>"

definition main_program ::
  "(string \<Rightarrow> error + csv_row list) \<Rightarrow> fit \<Rightarrow> (string \<Rightarrow> env) \<Rightarrow> anomaly list \<Rightarrow> system" where
  "main_program read_csv fit_fn envs table =
     main_loop (models read_csv fit_fn) envs sensor_config
       (initial_kalman_filters, initial_world table)"

section \<open>Vocabulary of the statements\<close>

text \<open>
  Two worlds with the same latch flags and the same published messages; and a ledger
  row that carries a given sensor type and detection method for a given reading.
\<close>

definition same_flags :: "world \<Rightarrow> world \<Rightarrow> bool" where
  "same_flags w w' \<longleftrightarrow> robot_moved w' = robot_moved w \<and> abnormal_detected w' = abnormal_detected w
      \<and> published w' = published w"

definition tagged :: "string \<Rightarrow> string \<Rightarrow> reading_row \<Rightarrow> anomaly \<Rightarrow> bool" where
  "tagged sensor_type method row a \<longleftrightarrow>
     an_sensor_type a = sensor_type \<and> an_detection_method a = method \<and>
     an_timestamp a = r_timestamp row \<and> an_patient_id a = r_patient_id row"

text \<open>
  What a pass may do to the ledger: the open transaction is empty afterwards, and the
  committed table has grown by one row for each local flag that the pass has set, the
  Isolation Forest row first; rows are only added for a reading that had none.
\<close>

definition ledger_delta :: "string \<Rightarrow> env \<Rightarrow> verdicts \<Rightarrow> world \<Rightarrow> world \<Rightarrow> bool" where
  "ledger_delta s e v w w' \<longleftrightarrow>
     pending w' = [] \<and>
     (\<exists>ifs kfr. anomalies w' = anomalies w @ ifs @ kfr \<and>
        (if isolation_forest_abnormal v
         then \<exists>row a. latest e = Some row \<and> ifs = [a] \<and> tagged s ''Isolation Forest'' row a
         else ifs = []) \<and>
        (if kalman_filter_abnormal v
         then \<exists>row a. latest e = Some row \<and> kfr = [a] \<and> tagged s ''Kalman Filter'' row a
         else kfr = [])) \<and>
     (isolation_forest_abnormal v \<or> kalman_filter_abnormal v \<longrightarrow>
        (\<exists>row. latest e = Some row \<and>
           filter (\<lambda>a. an_timestamp a = r_timestamp row \<and> an_sensor_type a = s) (anomalies w) = []))"

section \<open>Concrete readings and runs\<close>

text \<open>
  A loud sound reading and a bright light reading with the same timestamp, a model
  that calls every sample an outlier, and the rows and filter states that passes on
  these readings produce.
\<close>

definition loud_sound_row :: reading_row where
  "loud_sound_row =
     \<lparr>r_id = 1, r_patient_id = 10, r_values = [Numeric 0.05, Numeric 0.03], r_timestamp = 100\<rparr>"

definition bright_light_row :: reading_row where
  "bright_light_row =
     \<lparr>r_id = 2, r_patient_id = 10, r_values = [Numeric 100], r_timestamp = 100\<rparr>"

definition outlier_model :: model where
  "outlier_model vs = - 1"

definition sound_pass :: "fault_point set \<Rightarrow> pass_input" where
  "sound_pass fs =
     \<lparr>p_sensor = ''sound'', p_columns = [''rms'', ''zcr''], p_model = outlier_model,
      p_env = \<lparr>latest = Some loud_sound_row, faults = fs\<rparr>\<rparr>"

definition light_pass :: "fault_point set \<Rightarrow> pass_input" where
  "light_pass fs =
     \<lparr>p_sensor = ''light'', p_columns = [''light_level''], p_model = outlier_model,
      p_env = \<lparr>latest = Some bright_light_row, faults = fs\<rparr>\<rparr>"

definition sound_if_record :: anomaly where
  "sound_if_record =
     \<lparr>an_patient_id = 10, an_sensor_type = ''sound'', an_db = None, an_rms = Some 0.05,
      an_zcr = Some 0.03, an_detection_method = ''Isolation Forest'', an_timestamp = 100\<rparr>"

definition sound_kf_record :: anomaly where
  "sound_kf_record =
     \<lparr>an_patient_id = 10, an_sensor_type = ''sound'', an_db = None, an_rms = Some 0.05,
      an_zcr = Some 0.03, an_detection_method = ''Kalman Filter'', an_timestamp = 100\<rparr>"

definition light_if_record :: anomaly where
  "light_if_record =
     \<lparr>an_patient_id = 10, an_sensor_type = ''light'', an_db = None, an_rms = None,
      an_zcr = None, an_detection_method = ''Isolation Forest'', an_timestamp = 100\<rparr>"

definition light_kf_record :: anomaly where
  "light_kf_record =
     \<lparr>an_patient_id = 10, an_sensor_type = ''light'', an_db = None, an_rms = Some 100,
      an_zcr = None, an_detection_method = ''Kalman Filter'', an_timestamp = 100\<rparr>"

definition tracked_sound_filters :: "kalman_filter list" where
  "tracked_sound_filters =
     [\<lparr>kf_F = 1, kf_H = 1, kf_Q = 0.05, kf_R = 0.1, kf_P = 21 / 230, kf_x = 533 / 11500\<rparr>,
      \<lparr>kf_F = 1, kf_H = 1, kf_Q = 0.05, kf_R = 0.1, kf_P = 21 / 230, kf_x = 13 / 460\<rparr>]"

text \<open>
  The value of \<^verbatim>\<open>abnormal_detected\<close> before a sequence of passes and after each of
  them that runs, and the number of times a list of booleans goes from false to true, and from
  true to false.
\<close>

fun latch_trace :: "pass_input list \<Rightarrow> system \<Rightarrow> bool list" where
  "latch_trace [] st = [abnormal_detected (snd st)]"
| "latch_trace (p # ps) st =
     abnormal_detected (snd st) #
       (let st1 = detection_pass p st
        in if uncaught (snd st1) = None then latch_trace ps st1
           else [abnormal_detected (snd st1)])"

fun rises :: "bool list \<Rightarrow> nat" where
  "rises (a # b # bs) = (if \<not> a \<and> b then 1 else 0) + rises (b # bs)"
| "rises bs = 0"

fun falls :: "bool list \<Rightarrow> nat" where
  "falls (a # b # bs) = (if a \<and> \<not> b then 1 else 0) + falls (b # bs)"
| "falls bs = 0"

definition fired_world :: world where
  "fired_world =
     \<lparr>robot_moved = True, abnormal_detected = True,
      anomalies = [sound_if_record, sound_kf_record], pending = [],
      published = [(''robot/move'', MoveCommand 0 1),
                   (''web/alert'', AlertText ''Patient abnormal sound detected!'')],
      queries = [Fetch ''smart_room_readings'' [''rms'', ''zcr''], Exists 100 ''sound'',
                 Classify [0.05, 0.03]], uncaught = None\<rparr>"

definition tracked_light_filters :: "kalman_filter list" where
  "tracked_light_filters =
     [\<lparr>kf_F = 1, kf_H = 1, kf_Q = 0.05, kf_R = 0.1, kf_P = 21 / 230, kf_x = 2124 / 23\<rparr>]"

definition lit_world :: world where
  "lit_world =
     \<lparr>robot_moved = False, abnormal_detected = False,
      anomalies = [light_if_record, light_kf_record], pending = [], published = [],
      queries = [Fetch ''smart_room_readings'' [''light_level''], Exists 100 ''light'',
                 Classify [100]], uncaught = None\<rparr>"

text \<open>
  A room in which the commit of the Kalman row of the light pass fails, every sensor
  has a model, and the sound reading is loud; the world that the failing light pass
  leaves, and the world at the end of the main loop.
\<close>

definition stormy_room :: "string \<Rightarrow> env" where
  "stormy_room sensor =
     (if sensor = ''light'' then \<lparr>latest = Some bright_light_row, faults = {AtCommitKF}\<rparr>
      else \<lparr>latest = Some loud_sound_row, faults = {}\<rparr>)"

definition every_model :: "string \<Rightarrow> model option" where
  "every_model sensor = Some outlier_model"

definition half_lit_world :: world where
  "half_lit_world =
     \<lparr>robot_moved = False, abnormal_detected = False,
      anomalies = [light_if_record], pending = [], published = [],
      queries = [Fetch ''smart_room_readings'' [''light_level''], Exists 100 ''light'',
                 Classify [100]], uncaught = None\<rparr>"

definition stormy_end_world :: world where
  "stormy_end_world =
     \<lparr>robot_moved = True, abnormal_detected = True,
      anomalies = [light_if_record, sound_if_record, sound_kf_record], pending = [],
      published = [(''robot/move'', MoveCommand 0 1),
                   (''web/alert'', AlertText ''Patient abnormal sound detected!'')],
      queries = [Fetch ''smart_room_readings'' [''light_level''], Exists 100 ''light'',
                 Classify [100],
                 Fetch ''smart_room_readings'' [''rms'', ''zcr''], Exists 100 ''sound'',
                 Classify [0.05, 0.03]], uncaught = None\<rparr>"

text \<open>The key under which two ledger rows are compared.\<close>

definition ledger_key :: "anomaly \<Rightarrow> timestamp \<times> string \<times> string" where
  "ledger_key a = (an_timestamp a, an_sensor_type a, an_detection_method a)"

text \<open>
  A training file with two normal sound rows inside the range and three normal light
  rows, a \<^verbatim>\<open>fit\<close> that always succeeds, and a room with a loud sound reading and no
  light reading.
\<close>

definition small_csv :: "csv_row list" where
  "small_csv =
     [\<lparr>csv_label = ''normal'', csv_rms = Some 0.01, csv_zcr = Some 0.02, csv_light_level = Some 10\<rparr>,
      \<lparr>csv_label = ''normal'', csv_rms = Some 0.02, csv_zcr = Some 0.03, csv_light_level = Some 12\<rparr>,
      \<lparr>csv_label = ''normal'', csv_rms = None, csv_zcr = None, csv_light_level = Some 11\<rparr>,
      \<lparr>csv_label = ''abnormal'', csv_rms = Some 0.5, csv_zcr = Some 0.3, csv_light_level = Some 200\<rparr>]"

definition read_small_csv :: "string \<Rightarrow> error + csv_row list" where
  "read_small_csv file = Inr small_csv"

definition always_fit :: fit where
  "always_fit vs = Inr outlier_model"

definition loud_room :: "string \<Rightarrow> env" where
  "loud_room sensor =
     (if sensor = ''sound'' then \<lparr>latest = Some loud_sound_row, faults = {}\<rparr>
      else \<lparr>latest = None, faults = {}\<rparr>)"

section \<open>Properties of the Kalman filter\<close>

lemma predict_rw: "kf_F k = 1 \<Longrightarrow> predict k = k\<lparr>kf_P := kf_P k + kf_Q k\<rparr>"
  by (simp add: predict_def)

lemma gain_rw:
  "kf_H k = 1 \<Longrightarrow> kf_P k + kf_R k \<noteq> 0 \<Longrightarrow>
     kalman_gain k = Inr (kf_P k / (kf_P k + kf_R k))"
  by (simp add: kalman_gain_def linalg_inv_def innovation_cov_def)

lemma update_rw:
  "kf_H k = 1 \<Longrightarrow> kf_P k + kf_R k \<noteq> 0 \<Longrightarrow>
     update k z = Inr (k\<lparr>kf_x := kf_x k + kf_P k / (kf_P k + kf_R k) * (z - kf_x k),
                          kf_P := kf_P k * (1 - kf_P k / (kf_P k + kf_R k))\<rparr>)"
  by (simp add: update_def gain_rw Let_def mult.commute)

lemma track_rw:
  "kf_F k = 1 \<Longrightarrow> kf_H k = 1 \<Longrightarrow> kf_P k + kf_Q k + kf_R k \<noteq> 0 \<Longrightarrow>
     track_feature k z =
       (let g = (kf_P k + kf_Q k) / (kf_P k + kf_Q k + kf_R k);
            x' = kf_x k + g * (z - kf_x k)
        in (Inr \<bar>x' - z\<bar>, k\<lparr>kf_P := (kf_P k + kf_Q k) * (1 - g), kf_x := x'\<rparr>))"
  by (simp add: track_feature_def predict_rw update_rw Let_def)

text \<open>
  Claim C8. In the random-walk configuration that \<^verbatim>\<open>initialize_kalman_filter\<close> sets
  (\<open>F = H = 1\<close>), \<^verbatim>\<open>predict\<close> keeps the estimate and adds the process noise \<open>Q\<close> to the
  covariance; wherever the inverse of \<open>P + R\<close> exists, \<^verbatim>\<open>update(z)\<close> uses the gain
  \<open>P / (P + R)\<close>, moves the estimate by gain times \<open>z - x\<close> and multiplies the covariance
  by one minus the gain; and the residual of a pass is the distance between the
  measurement and the estimate that the update has just produced.
\<close>

theorem kalman_predict_update_residual:
  "kf_F k = 1 \<and> kf_H k = 1 \<longrightarrow>
     predict k = k\<lparr>kf_P := kf_P k + kf_Q k\<rparr> \<and>
     (kf_P k + kf_R k \<noteq> 0 \<longrightarrow>
        kalman_gain k = Inr (kf_P k / (kf_P k + kf_R k)) \<and>
        update k z = Inr (k\<lparr>kf_x := kf_x k + kf_P k / (kf_P k + kf_R k) * (z - kf_x k),
                             kf_P := kf_P k * (1 - kf_P k / (kf_P k + kf_R k))\<rparr>)) \<and>
     (kf_P k + kf_Q k + kf_R k \<noteq> 0 \<longrightarrow>
        (\<exists>k'. update (predict k) z = Inr k' \<and>
              track_feature k z = (Inr \<bar>kf_x k' - z\<bar>, k')))"
  by (auto simp: predict_rw gain_rw update_rw track_rw Let_def)

theorem kalman_predict_update_residual_witness:
  "kf_F (initialize_kalman_filter ''sound'' ''rms'') = 1 \<and>
   kf_H (initialize_kalman_filter ''sound'' ''rms'') = 1 \<and>
   predict (initialize_kalman_filter ''sound'' ''rms'') =
     \<lparr>kf_F = 1, kf_H = 1, kf_Q = 0.05, kf_R = 0.1, kf_P = 1.05, kf_x = 0.008\<rparr> \<and>
   kalman_gain (initialize_kalman_filter ''sound'' ''rms'') = Inr (10 / 11) \<and>
   update (initialize_kalman_filter ''sound'' ''rms'') 0.05 =
     Inr \<lparr>kf_F = 1, kf_H = 1, kf_Q = 0.05, kf_R = 0.1, kf_P = 1 / 11, kf_x = 127 / 2750\<rparr> \<and>
   track_feature (initialize_kalman_filter ''sound'' ''rms'') 0.05 =
     (Inr (21 / 5750),
      \<lparr>kf_F = 1, kf_H = 1, kf_Q = 0.05, kf_R = 0.1, kf_P = 21 / 230, kf_x = 533 / 11500\<rparr>)"
  using kalman_predict_update_residual
          [of "initialize_kalman_filter ''sound'' ''rms''" "0.05"]
  by (auto simp add: initialize_kalman_filter_def Let_def predict_def update_def
        kalman_gain_def linalg_inv_def innovation_cov_def)

lemma random_walk_predict: "random_walk k \<Longrightarrow> random_walk (predict k)"
  by (simp add: random_walk_def predict_def)

lemma shrink_pos:
  fixes p r :: real
  assumes "0 < p" "0 < r"
  shows "0 < p * (1 - p / (p + r))"
proof -
  have "1 - p / (p + r) = r / (p + r)" using assms by (simp add: field_simps)
  then show ?thesis using assms by simp
qed

lemma random_walk_update:
  assumes "random_walk k"
  shows "\<exists>k'. update k z = Inr k' \<and> random_walk k'"
proof -
  from assms have h: "kf_H k = 1" "kf_P k + kf_R k \<noteq> 0" "0 < kf_P k" "0 < kf_R k"
    by (simp_all add: random_walk_def)
  show ?thesis using assms shrink_pos[OF h(3) h(4)]
    by (simp add: update_rw[OF h(1) h(2)] random_walk_def)
qed

lemma random_walk_gain:
  assumes "random_walk k"
  shows "\<exists>K. kalman_gain k = Inr K \<and> 0 < K \<and> K < 1"
proof -
  from assms have h: "kf_H k = 1" "kf_P k + kf_R k \<noteq> 0" "0 < kf_P k" "0 < kf_R k"
    by (simp_all add: random_walk_def)
  show ?thesis using h by (simp add: gain_rw[OF h(1) h(2)])
qed

lemma random_walk_run_calls:
  "random_walk k \<Longrightarrow> \<exists>k'. run_calls k cs = Inr k' \<and> random_walk k'"
proof (induction k cs rule: run_calls.induct)
  case (1 k)
  then show ?case by simp
next
  case (2 k cs)
  then show ?case using random_walk_predict[of k] by simp
next
  case (3 k z cs)
  from random_walk_update[OF 3(2)] obtain k1 where k1: "update k z = Inr k1" "random_walk k1"
    by blast
  with 3(1)[OF k1(1) k1(2)] show ?case by simp
qed

lemma random_walk_init: "random_walk (initialize_kalman_filter s f)"
  by (simp add: random_walk_def initialize_kalman_filter_def Let_def)

text \<open>
  Claim C10. A filter built by \<^verbatim>\<open>initialize_kalman_filter\<close> (process noise 0.05,
  measurement noise 0.1, covariance 1) survives every sequence of \<^verbatim>\<open>predict\<close> and
  \<^verbatim>\<open>update\<close> calls: no call raises, the covariance it reaches is strictly positive, so
  is the innovation covariance \<open>S = P + R\<close>, its inverse is defined, the gain lies
  strictly between 0 and 1, and one more update, with any measurement, succeeds.
\<close>

theorem configured_covariance_positive:
  "\<exists>k K k'. run_calls (initialize_kalman_filter s f) cs = Inr k
      \<and> kf_Q k = 0.05 \<and> kf_R k = 0.1
      \<and> 0 < kf_P k
      \<and> innovation_cov k = kf_P k + kf_R k \<and> 0 < innovation_cov k
      \<and> linalg_inv (innovation_cov k) = Inr (1 / innovation_cov k)
      \<and> kalman_gain k = Inr K \<and> 0 < K \<and> K < 1
      \<and> update k z = Inr k'"
proof -
  have params: "\<And>k k'. run_calls k cs = Inr k' \<Longrightarrow> kf_Q k' = kf_Q k \<and> kf_R k' = kf_R k"
  proof (induction cs)
    case Nil
    then show ?case by simp
  next
    case (Cons c cs)
    show ?case
    proof (cases c)
      case Predict
      with Cons.prems Cons.IH[of "predict k" k'] show ?thesis by (simp add: predict_def)
    next
      case (Update y)
      with Cons.prems obtain k1 where k1: "update k y = Inr k1" "run_calls k1 cs = Inr k'"
        by (auto split: sum.splits)
      have "kf_Q k1 = kf_Q k \<and> kf_R k1 = kf_R k"
        using k1(1) by (auto simp: update_def Let_def split: sum.splits)
      with Cons.IH[OF k1(2)] show ?thesis by simp
    qed
  qed
  from random_walk_run_calls[OF random_walk_init, of s f cs]
  obtain k where k: "run_calls (initialize_kalman_filter s f) cs = Inr k" "random_walk k"
    by blast
  from random_walk_gain[OF k(2)] obtain K where K: "kalman_gain k = Inr K" "0 < K" "K < 1"
    by blast
  from random_walk_update[OF k(2)] obtain k' where k': "update k z = Inr k'" by blast
  have qr: "kf_Q k = 0.05" "kf_R k = 0.1"
    using params[OF k(1)] by (simp_all add: initialize_kalman_filter_def Let_def)
  have "innovation_cov k = kf_P k + kf_R k" "0 < kf_P k" "0 < kf_R k"
    using k(2) by (simp_all add: random_walk_def innovation_cov_def)
  then show ?thesis using k K k' qr by (simp add: linalg_inv_def)
qed












section \<open>Properties of the detection pass\<close>

subsection \<open>What each section of the pass does to the world\<close>

lemma insert_commit_cases:
  "insert_commit fi fc e a w = (r, w') \<Longrightarrow>
     same_flags w w' \<and> queries w' = queries w \<and>
     (case r of Inr u \<Rightarrow> anomalies w' = anomalies w @ pending w @ [a] \<and> pending w' = []
              | Inl err \<Rightarrow> anomalies w' = anomalies w)"
  by (auto simp: insert_commit_def db_insert_def db_commit_def same_flags_def split: if_splits)

lemma isolation_forest_check_cases:
  assumes "isolation_forest_check s cols m e row values w = (r, w')" "pending w = []"
  shows "same_flags w w' \<and>
     (r = Inr True \<longrightarrow> (\<exists>a. anomalies w' = anomalies w @ [a] \<and> pending w' = [] \<and>
                            tagged s ''Isolation Forest'' row a)) \<and>
     (r \<noteq> Inr True \<longrightarrow> anomalies w' = anomalies w) \<and>
     (r = Inr False \<longrightarrow> pending w' = [])"
  using assms
  apply (simp add: isolation_forest_check_def Let_def split: if_splits sum.splits prod.splits)
  apply (auto dest!: insert_commit_cases simp: same_flags_def tagged_def)
  done

lemma kalman_check_cases:
  assumes "kalman_check s cols e row values kfs w = (r, kfs', w')" "pending w = []"
  shows "same_flags w w' \<and> queries w' = queries w \<and>
     (r = Inr True \<longrightarrow> (\<exists>a. anomalies w' = anomalies w @ [a] \<and> pending w' = [] \<and>
                            tagged s ''Kalman Filter'' row a)) \<and>
     (r \<noteq> Inr True \<longrightarrow> anomalies w' = anomalies w) \<and>
     (r = Inr False \<longrightarrow> pending w' = [])"
  using assms
  apply (simp add: kalman_check_def Let_def split: if_splits sum.splits prod.splits)
  apply (auto dest!: insert_commit_cases simp: same_flags_def tagged_def)
  done

lemma act_cases:
  assumes "act_when_both_agree s a b e w = (r, w')"
  shows "anomalies w' = anomalies w \<and> pending w' = pending w \<and> queries w' = queries w"
  using assms
  by (auto simp: act_when_both_agree_def mqtt_publish_def Let_def split: if_splits sum.splits prod.splits)

lemma insert_commit_uncaught:
  "insert_commit fi fc e a w = (r, w') \<Longrightarrow> uncaught w' = uncaught w"
  by (auto simp: insert_commit_def db_insert_def db_commit_def split: if_splits)

lemma isolation_forest_check_uncaught:
  "isolation_forest_check s cols m e row vs w = (r, w') \<Longrightarrow> uncaught w' = uncaught w"
  by (auto simp: isolation_forest_check_def Let_def
           split: if_splits sum.splits prod.splits dest!: insert_commit_uncaught)

lemma kalman_check_uncaught:
  "kalman_check s cols e row vs kfs w = (r, kfs', w') \<Longrightarrow> uncaught w' = uncaught w"
  by (auto simp: kalman_check_def Let_def
           split: if_splits sum.splits prod.splits dest!: insert_commit_uncaught)

lemma act_uncaught:
  "act_when_both_agree s a b e w = (r, w') \<Longrightarrow> uncaught w' = uncaught w"
  by (auto simp: act_when_both_agree_def mqtt_publish_def Let_def
           split: if_splits sum.splits prod.splits)

lemma fetch_latest_uncaught:
  "fetch_latest e t cols w = (r, w') \<Longrightarrow> uncaught w' = uncaught w"
  by (auto simp: fetch_latest_def Let_def split: if_splits)

lemma count_existing_uncaught:
  "count_existing e ts s w = (r, w') \<Longrightarrow> uncaught w' = uncaught w"
  by (auto simp: count_existing_def Let_def split: if_splits)

lemma detection_body_uncaught:
  assumes "detection_body s cols t m kfs e w = (v, kfs', w1)"
  shows "uncaught w1 = uncaught w"
  using assms unfolding detection_body_def
  by (auto simp: no_verdict_def
           split: prod.splits sum.splits option.splits if_splits
           dest!: fetch_latest_uncaught count_existing_uncaught isolation_forest_check_uncaught
                  kalman_check_uncaught act_uncaught)

lemma run_detection_uncaught:
  assumes "run_detection s cols t m kfs e w = (v, kfs', w')" "AtRollback \<notin> faults e"
  shows "uncaught w' = uncaught w"
proof (cases "abnormal_detected w")
  case True
  with assms(1) show ?thesis by (simp add: run_detection_def)
next
  case False
  obtain v1 k1 w1 where b: "detection_body s cols t m kfs e w = (v1, k1, w1)"
    by (cases "detection_body s cols t m kfs e w") auto
  have "uncaught w' = uncaught w1"
    using False b assms
    by (auto simp add: run_detection_def db_rollback_def split: option.splits)
  with detection_body_uncaught[OF b] show ?thesis by simp
qed

lemma fetch_latest_cases:
  assumes "fetch_latest e t cols w = (r, w1)"
  shows "anomalies w1 = anomalies w \<and> pending w1 = pending w \<and> same_flags w w1 \<and>
         (\<forall>x. r = Inr x \<longrightarrow> x = latest e)"
  using assms by (auto simp: fetch_latest_def Let_def same_flags_def split: if_splits)

lemma count_existing_cases:
  assumes "count_existing e ts s w = (r, w1)"
  shows "anomalies w1 = anomalies w \<and> pending w1 = pending w \<and> same_flags w w1 \<and>
         (\<forall>n. r = Inr n \<longrightarrow>
            n = length (filter (\<lambda>a. an_timestamp a = ts \<and> an_sensor_type a = s)
                          (anomalies w @ pending w)))"
  using assms by (auto simp: count_existing_def Let_def same_flags_def split: if_splits)

lemma detection_body_ledger:
  assumes "detection_body s cols t m kfs e w = (v, kfs', w1)" "pending w = []"
  shows "ledger_delta s e v w (w1\<lparr>pending := []\<rparr>) \<and> (caught v = None \<longrightarrow> pending w1 = [])"
proof -
  obtain r1 wa where f: "fetch_latest e t cols w = (r1, wa)" by (cases "fetch_latest e t cols w")
  note fa = fetch_latest_cases[OF f]
  show ?thesis
  proof (cases r1)
    case (Inl err)
    with assms f fa show ?thesis
      by (auto simp add: detection_body_def ledger_delta_def no_verdict_def)
  next
    case (Inr ro)
    show ?thesis
    proof (cases ro)
      case None
      with Inr assms f fa show ?thesis
        by (auto simp add: detection_body_def ledger_delta_def no_verdict_def)
    next
      case (Some row)
      with Inr fa have lat: "latest e = Some row" by simp
      obtain r2 wb where c: "count_existing e (r_timestamp row) s wa = (r2, wb)"
        by (cases "count_existing e (r_timestamp row) s wa")
      note ca = count_existing_cases[OF c]
      have wb: "anomalies wb = anomalies w" "pending wb = []" using fa ca assms(2) by simp_all
      show ?thesis
      proof (cases r2)
        case (Inl err)
        with Some Inr assms f c wb show ?thesis
          by (auto simp add: detection_body_def ledger_delta_def no_verdict_def)
      next
        case n: (Inr n)
        show ?thesis
        proof (cases "n > 0")
          case True
          with n Some Inr assms f c wb show ?thesis
            by (auto simp add: detection_body_def ledger_delta_def no_verdict_def)
        next
          case False
          then have nodup: "filter (\<lambda>a. an_timestamp a = r_timestamp row \<and> an_sensor_type a = s)
                              (anomalies w) = []"
            using ca n fa assms(2) by simp
          show ?thesis
          proof (cases "to_floats (r_values row)")
            case (Inl err)
            with False n Some Inr assms f c wb show ?thesis
              by (auto simp add: detection_body_def ledger_delta_def no_verdict_def)
          next
            case vals: (Inr vs)
            obtain r3 wc where i: "isolation_forest_check s cols m e row vs wb = (r3, wc)"
              by (cases "isolation_forest_check s cols m e row vs wb")
            note ia = isolation_forest_check_cases[OF i wb(2)]
            show ?thesis
            proof (cases r3)
              case (Inl err)
              with ia vals False n Some Inr assms f c wb i show ?thesis
                by (auto simp add: detection_body_def ledger_delta_def no_verdict_def)
            next
              case ifa: (Inr if_abn)
              have wc: "pending wc = []" using ia ifa by (cases if_abn) auto
              obtain r4 kf4 wd where k: "kalman_check s cols e row vs kfs wc = (r4, kf4, wd)"
                by (cases "kalman_check s cols e row vs kfs wc") auto
              note ka = kalman_check_cases[OF k wc]
              have ifpart: "\<exists>ifs. anomalies wc = anomalies w @ ifs \<and>
                     (if if_abn then \<exists>a. ifs = [a] \<and> tagged s ''Isolation Forest'' row a
                      else ifs = [])"
                using ia ifa wb by (cases if_abn) auto
              then obtain ifs where ifs: "anomalies wc = anomalies w @ ifs"
                 "if if_abn then \<exists>a. ifs = [a] \<and> tagged s ''Isolation Forest'' row a else ifs = []"
                by blast
              show ?thesis
              proof (cases r4)
                case (Inl err)
                have led: "anomalies (wd\<lparr>pending := []\<rparr>) = anomalies w @ ifs @ []"
                  using ka Inl ifs by (simp add:)
                have ex: "\<exists>ifs kfr. anomalies (wd\<lparr>pending := []\<rparr>) = anomalies w @ ifs @ kfr \<and>
                    (if if_abn
                     then \<exists>row a. latest e = Some row \<and> ifs = [a] \<and>
                            tagged s ''Isolation Forest'' row a
                     else ifs = []) \<and>
                    (if False
                     then \<exists>row a. latest e = Some row \<and> kfr = [a] \<and>
                            tagged s ''Kalman Filter'' row a
                     else kfr = [])"
                  using led ifs(2) lat
                  by (intro exI[of _ ifs] exI[of _ "[]"]) (auto split: if_splits)
                have pr: "pending (wd\<lparr>pending := []\<rparr>) = []" by (simp add:)
                have v: "isolation_forest_abnormal v = if_abn" "kalman_filter_abnormal v = False"
                    "caught v \<noteq> None" "w1 = wd"
                  using Inl ifa vals False n Some Inr assms(1) f c i k
                  by (auto simp add: detection_body_def split: sum.splits)
                show ?thesis
                  unfolding ledger_delta_def v
                  using ex pr lat nodup v(3) by auto
              next
                case kfa: (Inr kf_abn)
                have wd: "pending wd = []" using ka kfa by (cases kf_abn) auto
                have kfpart: "\<exists>kfr. anomalies wd = anomalies wc @ kfr \<and>
                     (if kf_abn then \<exists>a. kfr = [a] \<and> tagged s ''Kalman Filter'' row a
                      else kfr = [])"
                  using ka kfa by (cases kf_abn) auto
                then obtain kfr where kfr: "anomalies wd = anomalies wc @ kfr"
                   "if kf_abn then \<exists>a. kfr = [a] \<and> tagged s ''Kalman Filter'' row a else kfr = []"
                  by blast
                obtain r5 we where a: "act_when_both_agree s if_abn kf_abn e wd = (r5, we)"
                  by (cases "act_when_both_agree s if_abn kf_abn e wd")
                note aa = act_cases[OF a]
                have led: "anomalies (we\<lparr>pending := []\<rparr>) = anomalies w @ ifs @ kfr"
                    "pending we = []"
                  using aa kfr ifs wd by (simp_all add:)
                have v: "isolation_forest_abnormal v = if_abn" "kalman_filter_abnormal v = kf_abn"
                    "caught v = None \<longrightarrow> w1 = we" "w1 = we"
                  using kfa ifa vals False n Some Inr assms(1) f c i k a
                  by (auto simp add: detection_body_def split: sum.splits)
                have ex: "\<exists>ifs kfr. anomalies (we\<lparr>pending := []\<rparr>) = anomalies w @ ifs @ kfr \<and>
                    (if if_abn
                     then \<exists>row a. latest e = Some row \<and> ifs = [a] \<and>
                            tagged s ''Isolation Forest'' row a
                     else ifs = []) \<and>
                    (if kf_abn
                     then \<exists>row a. latest e = Some row \<and> kfr = [a] \<and>
                            tagged s ''Kalman Filter'' row a
                     else kfr = [])"
                  using led(1) ifs(2) kfr(2) lat
                  by (intro exI[of _ ifs] exI[of _ kfr]) (auto split: if_splits)
                have pr: "pending (we\<lparr>pending := []\<rparr>) = []" by (simp add:)
                show ?thesis
                  unfolding ledger_delta_def v
                  using ex pr led(2) lat nodup by auto
              qed
            qed
          qed
        qed
      qed
    qed
  qed
qed

lemma ledger_delta_cong:
  "ledger_delta s e v w w1 \<Longrightarrow> pending w2 = pending w1 \<Longrightarrow> anomalies w2 = anomalies w1 \<Longrightarrow>
     ledger_delta s e v w w2"
  by (simp add: ledger_delta_def)

lemma run_detection_ledger:
  assumes "run_detection s cols t m kfs e w = (v, kfs', w')" "pending w = []"
  shows "ledger_delta s e v w w'"
proof (cases "abnormal_detected w")
  case True
  with assms show ?thesis
    by (auto simp: run_detection_def ledger_delta_def no_verdict_def)
next
  case False
  obtain v1 k1 w1 where b: "detection_body s cols t m kfs e w = (v1, k1, w1)"
    by (cases "detection_body s cols t m kfs e w") auto
  note ba = detection_body_ledger[OF b assms(2)]
  show ?thesis
  proof (cases "caught v1")
    case None
    with False b assms(1) have "v = v1" "w' = w1" by (simp_all add: run_detection_def)
    moreover have "pending w1 = []" using ba None by simp
    ultimately show ?thesis using ba ledger_delta_cong[of s e v1 w "w1\<lparr>pending := []\<rparr>" w1]
      by simp
  next
    case (Some err)
    with False b assms(1) have "v = v1" "pending w' = []" "anomalies w' = anomalies w1"
      by (auto simp add: run_detection_def db_rollback_def split: if_splits)
    then show ?thesis using ba ledger_delta_cong[of s e v1 w "w1\<lparr>pending := []\<rparr>" w']
      by simp
  qed
qed

subsection \<open>The concrete runs, evaluated\<close>

lemma initial_sound_filters:
  "initial_kalman_filters ''sound'' =
     [\<lparr>kf_F = 1, kf_H = 1, kf_Q = 0.05, kf_R = 0.1, kf_P = 1, kf_x = 0.008\<rparr>,
      \<lparr>kf_F = 1, kf_H = 1, kf_Q = 0.05, kf_R = 0.1, kf_P = 1, kf_x = 0.010\<rparr>]"
  by (simp add: initial_kalman_filters_def sensor_config_def initialize_kalman_filter_def Let_def)

lemma initial_light_filters:
  "initial_kalman_filters ''light'' =
     [\<lparr>kf_F = 1, kf_H = 1, kf_Q = 0.05, kf_R = 0.1, kf_P = 1, kf_x = 12\<rparr>]"
  by (simp add: initial_kalman_filters_def sensor_config_def initialize_kalman_filter_def Let_def)

lemma sound_loop:
  "kalman_loop [''rms'', ''zcr''] 0 [1 / 20, 3 / 100] (initial_kalman_filters ''sound'') 0
     = (Inr 2, tracked_sound_filters)"
  by (simp add: initial_sound_filters tracked_sound_filters_def threshold_def track_feature_def
       predict_def update_def kalman_gain_def linalg_inv_def innovation_cov_def Let_def)

lemma sound_pass_agrees:
  "run_detection ''sound'' [''rms'', ''zcr''] ''smart_room_readings'' outlier_model
     (initial_kalman_filters ''sound'') \<lparr>latest = Some loud_sound_row, faults = {}\<rparr>
     (initial_world []) =
   (\<lparr>isolation_forest_abnormal = True, kalman_filter_abnormal = True, caught = None\<rparr>,
    tracked_sound_filters,
    \<lparr>robot_moved = True, abnormal_detected = True,
     anomalies = [sound_if_record, sound_kf_record], pending = [],
     published = [(''robot/move'', MoveCommand 0 1),
                  (''web/alert'', AlertText ''Patient abnormal sound detected!'')],
     queries = [Fetch ''smart_room_readings'' [''rms'', ''zcr''], Exists 100 ''sound'',
                Classify [0.05, 0.03]], uncaught = None\<rparr>)"
  by (simp add: run_detection_def detection_body_def fetch_latest_def count_existing_def
       isolation_forest_check_def kalman_check_def act_when_both_agree_def insert_commit_def
       db_insert_def db_commit_def db_rollback_def mqtt_publish_def no_verdict_def nth_or_none_def
       sound_loop loud_sound_row_def outlier_model_def initial_world_def
       sound_if_record_def sound_kf_record_def Let_def del: kalman_loop.simps)

lemma sound_pass_kf_insert_fails:
  "run_detection ''sound'' [''rms'', ''zcr''] ''smart_room_readings'' outlier_model
     (initial_kalman_filters ''sound'') \<lparr>latest = Some loud_sound_row, faults = {AtInsertKF}\<rparr>
     (initial_world []) =
   (\<lparr>isolation_forest_abnormal = True, kalman_filter_abnormal = False,
     caught = Some DatabaseError\<rparr>,
    tracked_sound_filters,
    \<lparr>robot_moved = False, abnormal_detected = False,
     anomalies = [sound_if_record], pending = [],
     published = [],
     queries = [Fetch ''smart_room_readings'' [''rms'', ''zcr''], Exists 100 ''sound'',
                Classify [0.05, 0.03]], uncaught = None\<rparr>)"
  by (simp add: run_detection_def detection_body_def fetch_latest_def count_existing_def
       isolation_forest_check_def kalman_check_def act_when_both_agree_def insert_commit_def
       db_insert_def db_commit_def db_rollback_def mqtt_publish_def no_verdict_def nth_or_none_def
       sound_loop loud_sound_row_def outlier_model_def initial_world_def
       sound_if_record_def sound_kf_record_def Let_def del: kalman_loop.simps)

subsection \<open>The latch\<close>

lemma run_detection_latched:
  "abnormal_detected w \<Longrightarrow> run_detection s cols t m kfs e w = (no_verdict None, kfs, w)"
  by (simp add: run_detection_def)

lemma detection_pass_latched:
  "abnormal_detected (snd st) \<Longrightarrow> detection_pass p st = st"
  by (cases st) (simp add: detection_pass_def run_detection_latched)

lemma run_passes_latched:
  "abnormal_detected (snd st) \<Longrightarrow> run_passes ps st = st"
  by (induction ps) (simp_all add: detection_pass_latched)

text \<open>
  Claim C4. Once \<^verbatim>\<open>abnormal_detected\<close> is set, a pass of any sensor type, with any
  columns, model, filters, reading and faults, returns at once: the filter list and the
  world come back unchanged, so nothing is fetched or classified (the log of queries is
  the same), no filter is touched, no ledger row is written and nothing is published.
  The same holds for every later pass of a sequence.
\<close>

theorem latched_pass_is_noop:
  "abnormal_detected w \<longrightarrow>
     run_detection s cols t m kfs e w = (no_verdict None, kfs, w) \<and>
     detection_pass p (K, w) = (K, w) \<and>
     run_passes ps (K, w) = (K, w)"
  by (simp add: run_detection_latched detection_pass_latched run_passes_latched)

text \<open>
  The world after the pass on the loud sound reading has the flag set; a light pass
  and a sound pass on readings that would trigger both detectors leave it as it is.
\<close>

theorem latched_pass_is_noop_witness:
  "snd (snd (run_detection ''sound'' [''rms'', ''zcr''] ''smart_room_readings'' outlier_model
     (initial_kalman_filters ''sound'') \<lparr>latest = Some loud_sound_row, faults = {}\<rparr>
     (initial_world []))) = fired_world \<and>
   abnormal_detected fired_world \<and>
   run_detection ''light'' [''light_level''] ''smart_room_readings'' outlier_model
     (initial_kalman_filters ''light'') \<lparr>latest = Some bright_light_row, faults = {}\<rparr>
     fired_world = (no_verdict None, initial_kalman_filters ''light'', fired_world) \<and>
   detection_pass (sound_pass {}) (initial_kalman_filters, fired_world)
     = (initial_kalman_filters, fired_world) \<and>
   run_passes [light_pass {}, sound_pass {}] (initial_kalman_filters, fired_world)
     = (initial_kalman_filters, fired_world)"
  using latched_pass_is_noop
          [of fired_world "''light''" "[''light_level'']" "''smart_room_readings''" outlier_model
              "initial_kalman_filters ''light''"
              "\<lparr>latest = Some bright_light_row, faults = {}\<rparr>"
              "sound_pass {}" initial_kalman_filters "[light_pass {}, sound_pass {}]"]
  by (simp add: sound_pass_agrees) (simp add: fired_world_def)

subsection \<open>The re-entry guard\<close>

text \<open>
  Claim C6, as amended. With the latch open, a pass whose reading already has a ledger
  row with its timestamp and sensor type returns at the guard: it has made the fetch
  and the existence query and nothing else. No value is coerced, the classifier is not
  called, the filter list is returned as it was, and the ledger is the same, so the
  reading keeps exactly the rows it had.
\<close>

theorem reentry_guard_inserts_nothing:
  "\<not> abnormal_detected w \<and> cols \<noteq> [] \<and> AtFetch \<notin> faults e \<and> AtExists \<notin> faults e \<and>
   latest e = Some row \<and>
   (\<exists>a \<in> set (anomalies w @ pending w).
       an_timestamp a = r_timestamp row \<and> an_sensor_type a = s) \<longrightarrow>
     run_detection s cols t m kfs e w =
       (no_verdict None, kfs,
        w\<lparr>queries := queries w @ [Fetch t cols, Exists (r_timestamp row) s]\<rparr>)"
proof
  assume a: "\<not> abnormal_detected w \<and> cols \<noteq> [] \<and> AtFetch \<notin> faults e \<and> AtExists \<notin> faults e \<and>
   latest e = Some row \<and>
   (\<exists>a \<in> set (anomalies w @ pending w).
       an_timestamp a = r_timestamp row \<and> an_sensor_type a = s)"
  then have "filter (\<lambda>a. an_timestamp a = r_timestamp row \<and> an_sensor_type a = s)
               (anomalies w @ pending w) \<noteq> []"
    by (simp only: filter_empty_conv) blast
  then have pos: "0 < length (filter (\<lambda>a. an_timestamp a = r_timestamp row \<and> an_sensor_type a = s)
               (anomalies w @ pending w))"
    by simp
  show "run_detection s cols t m kfs e w =
       (no_verdict None, kfs,
        w\<lparr>queries := queries w @ [Fetch t cols, Exists (r_timestamp row) s]\<rparr>)"
    using a pos
    by (simp add: run_detection_def detection_body_def fetch_latest_def count_existing_def
          no_verdict_def Let_def del: filter_append)
qed

lemma isolation_forest_check_flags:
  "isolation_forest_check s cols m e row vs w = (r, w') \<Longrightarrow> same_flags w w'"
  by (auto simp: isolation_forest_check_def Let_def same_flags_def
           split: if_splits sum.splits prod.splits dest!: insert_commit_cases)

lemma kalman_check_flags:
  "kalman_check s cols e row vs kfs w = (r, kfs', w') \<Longrightarrow> same_flags w w'"
  by (auto simp: kalman_check_def Let_def same_flags_def
           split: if_splits sum.splits prod.splits dest!: insert_commit_cases)

lemma act_latch:
  assumes "act_when_both_agree s a b e w = (r, w')"
    and "robot_moved w = abnormal_detected w" "\<not> abnormal_detected w"
  shows "robot_moved w' = abnormal_detected w' \<and>
         (abnormal_detected w' \<longleftrightarrow> s = ''sound'' \<and> a \<and> b)"
  using assms
  by (auto simp: act_when_both_agree_def mqtt_publish_def Let_def
           split: if_splits sum.splits prod.splits)

lemma detection_body_latch:
  assumes "detection_body s cols t m kfs e w = (v, kfs', w1)"
    and "robot_moved w = abnormal_detected w" "\<not> abnormal_detected w"
  shows "robot_moved w1 = abnormal_detected w1 \<and>
         (abnormal_detected w1 \<longleftrightarrow>
            s = ''sound'' \<and> isolation_forest_abnormal v \<and> kalman_filter_abnormal v)"
proof -
  obtain r1 wa where f: "fetch_latest e t cols w = (r1, wa)" by (cases "fetch_latest e t cols w")
  have fa: "same_flags w wa" using fetch_latest_cases[OF f] by simp
  show ?thesis
  proof (cases r1)
    case (Inl err)
    with assms f fa show ?thesis
      by (auto simp add: detection_body_def no_verdict_def same_flags_def)
  next
    case (Inr ro)
    show ?thesis
    proof (cases ro)
      case None
      with Inr assms f fa show ?thesis
        by (auto simp add: detection_body_def no_verdict_def same_flags_def)
    next
      case (Some row)
      obtain r2 wb where c: "count_existing e (r_timestamp row) s wa = (r2, wb)"
        by (cases "count_existing e (r_timestamp row) s wa")
      have wb: "same_flags w wb"
        using fa count_existing_cases[OF c] by (simp add: same_flags_def)
      show ?thesis
      proof (cases r2)
        case (Inl err)
        with Some Inr assms f c wb show ?thesis
          by (auto simp add: detection_body_def no_verdict_def same_flags_def)
      next
        case n: (Inr n)
        show ?thesis
        proof (cases "n > 0")
          case True
          with n Some Inr assms f c wb show ?thesis
            by (auto simp add: detection_body_def no_verdict_def same_flags_def)
        next
          case False
          show ?thesis
          proof (cases "to_floats (r_values row)")
            case (Inl err)
            with False n Some Inr assms f c wb show ?thesis
              by (auto simp add: detection_body_def no_verdict_def same_flags_def)
          next
            case vals: (Inr vs)
            obtain r3 wc where i: "isolation_forest_check s cols m e row vs wb = (r3, wc)"
              by (cases "isolation_forest_check s cols m e row vs wb")
            have wc: "same_flags w wc"
              using wb isolation_forest_check_flags[OF i] by (simp add: same_flags_def)
            show ?thesis
            proof (cases r3)
              case (Inl err)
              with vals False n Some Inr assms f c wc i show ?thesis
                by (auto simp add: detection_body_def no_verdict_def same_flags_def)
            next
              case ifa: (Inr if_abn)
              obtain r4 kf4 wd where k: "kalman_check s cols e row vs kfs wc = (r4, kf4, wd)"
                by (cases "kalman_check s cols e row vs kfs wc") auto
              have wd: "same_flags w wd"
                using wc kalman_check_flags[OF k] by (simp add: same_flags_def)
              show ?thesis
              proof (cases r4)
                case (Inl err)
                with ifa vals False n Some Inr assms f c i k wd show ?thesis
                  by (auto simp add: detection_body_def same_flags_def)
              next
                case kfa: (Inr kf_abn)
                obtain r5 we where a: "act_when_both_agree s if_abn kf_abn e wd = (r5, we)"
                  by (cases "act_when_both_agree s if_abn kf_abn e wd")
                have pre: "robot_moved wd = abnormal_detected wd" "\<not> abnormal_detected wd"
                  using wd assms(2,3) by (simp_all add: same_flags_def)
                note aa = act_latch[OF a pre]
                have v: "isolation_forest_abnormal v = if_abn" "kalman_filter_abnormal v = kf_abn"
                    "w1 = we"
                  using kfa ifa vals False n Some Inr assms(1) f c i k a
                  by (auto simp add: detection_body_def split: sum.splits)
                show ?thesis unfolding v using aa by simp
              qed
            qed
          qed
        qed
      qed
    qed
  qed
qed

lemma run_detection_latch:
  assumes "run_detection s cols t m kfs e w = (v, kfs', w')"
    and "robot_moved w = abnormal_detected w"
  shows "robot_moved w' = abnormal_detected w' \<and>
         ((\<not> abnormal_detected w \<and> abnormal_detected w') =
          (\<not> abnormal_detected w \<and> s = ''sound'' \<and>
           isolation_forest_abnormal v \<and> kalman_filter_abnormal v)) \<and>
         (abnormal_detected w \<longrightarrow> abnormal_detected w')"
proof (cases "abnormal_detected w")
  case True
  with assms show ?thesis by (auto simp: run_detection_def)
next
  case False
  obtain v1 k1 w1 where b: "detection_body s cols t m kfs e w = (v1, k1, w1)"
    by (cases "detection_body s cols t m kfs e w") auto
  note ba = detection_body_latch[OF b assms(2) False]
  have "v = v1" "robot_moved w' = robot_moved w1" "abnormal_detected w' = abnormal_detected w1"
    using False b assms(1)
    by (auto simp add: run_detection_def db_rollback_def split: option.splits if_splits)
  then show ?thesis using ba False by simp
qed

lemma detection_pass_latch:
  assumes "robot_moved (snd st) = abnormal_detected (snd st)"
  shows "robot_moved (snd (detection_pass p st)) = abnormal_detected (snd (detection_pass p st))"
proof -
  obtain v kfs' w' where r: "run_detection (p_sensor p) (p_columns p) ''smart_room_readings''
      (p_model p) (fst st (p_sensor p)) (p_env p) (snd st) = (v, kfs', w')"
    by (cases "run_detection (p_sensor p) (p_columns p) ''smart_room_readings''
      (p_model p) (fst st (p_sensor p)) (p_env p) (snd st)") auto
  from run_detection_latch[OF r assms] r show ?thesis by (simp add: detection_pass_def)
qed

lemma latch_trace_latched:
  "abnormal_detected (snd st) \<Longrightarrow> \<exists>n. latch_trace ps st = replicate (Suc n) True"
proof (induction ps)
  case Nil
  then show ?case by simp
next
  case (Cons p ps)
  then obtain n where n: "latch_trace ps st = replicate (Suc n) True" by blast
  have same: "detection_pass p st = st" using Cons.prems by (rule detection_pass_latched)
  show ?case
  proof (cases "uncaught (snd st) = None")
    case True
    then have "latch_trace (p # ps) st = replicate (Suc (Suc n)) True"
      using Cons.prems n same by (simp add: Let_def)
    then show ?thesis by blast
  next
    case False
    then have "latch_trace (p # ps) st = replicate (Suc (Suc 0)) True"
      using Cons.prems same by (auto simp add: Let_def)
    then show ?thesis by blast
  qed
qed

lemma rises_replicate: "rises (replicate n True) = 0"
proof (induction n)
  case 0
  then show ?case by simp
next
  case (Suc n)
  then show ?case by (cases n) simp_all
qed

lemma falls_replicate: "falls (replicate n True) = 0"
proof (induction n)
  case 0
  then show ?case by simp
next
  case (Suc n)
  then show ?case by (cases n) simp_all
qed

lemma latch_trace_hd: "latch_trace ps st = abnormal_detected (snd st) # tl (latch_trace ps st)"
  by (cases ps) simp_all

lemma latch_trace_counts:
  "rises (latch_trace ps st) \<le> 1 \<and> falls (latch_trace ps st) = 0"
proof (induction ps arbitrary: st)
  case Nil
  then show ?case by simp
next
  case (Cons p ps)
  let ?st' = "detection_pass p st"
  show ?case
  proof (cases "abnormal_detected (snd st)")
    case True
    from latch_trace_latched[OF True, of "p # ps"] obtain n where
      "latch_trace (p # ps) st = replicate (Suc n) True" by blast
    then show ?thesis
      using rises_replicate[of "Suc n"] falls_replicate[of "Suc n"] by simp
  next
    case False
    show ?thesis
    proof (cases "uncaught (snd ?st') = None")
      case ended: False
      then have "latch_trace (p # ps) st = [False, abnormal_detected (snd ?st')]"
        using False by (auto simp add: Let_def)
      then show ?thesis by simp
    next
      case alive: True
      then have unfold: "latch_trace (p # ps) st = False # latch_trace ps ?st'"
        using False by (simp add: Let_def)
      show ?thesis
      proof (cases "abnormal_detected (snd ?st')")
        case True
        from latch_trace_latched[OF True, of ps] obtain n where
          "latch_trace ps ?st' = replicate (Suc n) True" by blast
        then have "latch_trace (p # ps) st = False # replicate (Suc n) True"
          using unfold by simp
        then show ?thesis
          using rises_replicate[of "Suc n"] falls_replicate[of "Suc n"] by simp
      next
        case F2: False
        obtain bs where bs: "latch_trace ps ?st' = False # bs"
          using F2 latch_trace_hd[of ps ?st'] by simp
        then have "latch_trace (p # ps) st = False # False # bs" using unfold by simp
        then show ?thesis using Cons.IH[of ?st'] bs by simp
      qed
    qed
  qed
qed

text \<open>
  Claim C3. From a world where the two flags agree (both are false at start-up, and
  every pass keeps them equal), a pass takes \<^verbatim>\<open>abnormal_detected\<close> from false to true
  exactly when the sensor type is sound and the pass ends with both local confirmation
  flags true while the latch was open; a set flag stays set. Over any sequence of
  passes the flag rises at most once and never falls.
\<close>

theorem latch_fires_once:
  "robot_moved w = abnormal_detected w \<longrightarrow>
     (\<exists>v kfs' w'. run_detection s cols t m kfs e w = (v, kfs', w') \<and>
        robot_moved w' = abnormal_detected w' \<and>
        ((\<not> abnormal_detected w \<and> abnormal_detected w') =
         (\<not> abnormal_detected w \<and> s = ''sound'' \<and>
          isolation_forest_abnormal v \<and> kalman_filter_abnormal v)) \<and>
        (abnormal_detected w \<longrightarrow> abnormal_detected w')) \<and>
     rises (latch_trace ps (K, w)) \<le> 1 \<and> falls (latch_trace ps (K, w)) = 0"
proof
  assume inv: "robot_moved w = abnormal_detected w"
  obtain v kfs' w' where r: "run_detection s cols t m kfs e w = (v, kfs', w')"
    by (cases "run_detection s cols t m kfs e w") auto
  from run_detection_latch[OF r inv] r latch_trace_counts[of ps "(K, w)"]
  show "(\<exists>v kfs' w'. run_detection s cols t m kfs e w = (v, kfs', w') \<and>
        robot_moved w' = abnormal_detected w' \<and>
        ((\<not> abnormal_detected w \<and> abnormal_detected w') =
         (\<not> abnormal_detected w \<and> s = ''sound'' \<and>
          isolation_forest_abnormal v \<and> kalman_filter_abnormal v)) \<and>
        (abnormal_detected w \<longrightarrow> abnormal_detected w')) \<and>
     rises (latch_trace ps (K, w)) \<le> 1 \<and> falls (latch_trace ps (K, w)) = 0"
    by blast
qed

lemma light_loop:
  "kalman_loop [''light_level''] 0 [100] (initial_kalman_filters ''light'') 0
     = (Inr 1, tracked_light_filters)"
  by (simp add: initial_light_filters tracked_light_filters_def threshold_def track_feature_def
       predict_def update_def kalman_gain_def linalg_inv_def innovation_cov_def Let_def)

lemma light_pass_agrees:
  "run_detection ''light'' [''light_level''] ''smart_room_readings'' outlier_model
     (initial_kalman_filters ''light'') \<lparr>latest = Some bright_light_row, faults = {}\<rparr>
     (initial_world []) =
   (\<lparr>isolation_forest_abnormal = True, kalman_filter_abnormal = True, caught = None\<rparr>,
    tracked_light_filters, lit_world)"
  by (simp add: run_detection_def detection_body_def fetch_latest_def count_existing_def
       isolation_forest_check_def kalman_check_def act_when_both_agree_def insert_commit_def
       db_insert_def db_commit_def db_rollback_def mqtt_publish_def no_verdict_def nth_or_none_def
       light_loop bright_light_row_def outlier_model_def initial_world_def lit_world_def
       light_if_record_def light_kf_record_def Let_def del: kalman_loop.simps)

lemma first_sound_pass:
  "detection_pass (sound_pass {}) (initial_kalman_filters, initial_world []) =
     (initial_kalman_filters(''sound'' := tracked_sound_filters), fired_world)"
  by (simp add: detection_pass_def sound_pass_def sound_pass_agrees fired_world_def)

lemma first_light_pass:
  "detection_pass (light_pass {}) (initial_kalman_filters, initial_world []) =
     (initial_kalman_filters(''light'' := tracked_light_filters), lit_world)"
  by (simp add: detection_pass_def light_pass_def light_pass_agrees)

lemma fired_world_flags:
  "abnormal_detected fired_world" "robot_moved fired_world" "uncaught fired_world = None"
  by (simp_all add: fired_world_def)

lemma lit_world_flags:
  "\<not> abnormal_detected lit_world" "uncaught lit_world = None"
  by (simp_all add: lit_world_def)

text \<open>
  At start-up the flags agree; the pass on the loud sound reading fires the latch with
  both confirmations true, and the latch stays fired over the passes that follow.
\<close>

theorem latch_fires_once_witness:
  "robot_moved (initial_world []) = abnormal_detected (initial_world []) \<and>
   \<not> abnormal_detected (initial_world []) \<and>
   (\<exists>v kfs' w'.
       run_detection ''sound'' [''rms'', ''zcr''] ''smart_room_readings'' outlier_model
         (initial_kalman_filters ''sound'') \<lparr>latest = Some loud_sound_row, faults = {}\<rparr>
         (initial_world []) = (v, kfs', w') \<and>
       robot_moved w' \<and> abnormal_detected w' \<and>
       isolation_forest_abnormal v \<and> kalman_filter_abnormal v) \<and>
   latch_trace [sound_pass {}, light_pass {}, sound_pass {}]
      (initial_kalman_filters, initial_world []) = [False, True, True, True] \<and>
   rises (latch_trace [sound_pass {}, light_pass {}, sound_pass {}]
      (initial_kalman_filters, initial_world [])) \<le> 1 \<and>
   falls (latch_trace [sound_pass {}, light_pass {}, sound_pass {}]
      (initial_kalman_filters, initial_world [])) = 0"
  using latch_fires_once
          [of "initial_world []" "''sound''" "[''rms'', ''zcr'']" "''smart_room_readings''"
              outlier_model "initial_kalman_filters ''sound''"
              "\<lparr>latest = Some loud_sound_row, faults = {}\<rparr>"
              "[sound_pass {}, light_pass {}, sound_pass {}]" initial_kalman_filters]
  by (simp add: sound_pass_agrees first_sound_pass detection_pass_latched fired_world_flags
        Let_def)
     (simp add: initial_world_def fired_world_def)

text \<open>
  The light pass, run again on the world and filters that its first run left.
\<close>

theorem reentry_guard_inserts_nothing_witness:
  "\<not> abnormal_detected lit_world \<and>
   light_if_record \<in> set (anomalies lit_world @ pending lit_world) \<and>
   an_timestamp light_if_record = r_timestamp bright_light_row \<and>
   an_sensor_type light_if_record = ''light'' \<and>
   run_detection ''light'' [''light_level''] ''smart_room_readings'' outlier_model
     tracked_light_filters \<lparr>latest = Some bright_light_row, faults = {}\<rparr> lit_world =
     (no_verdict None, tracked_light_filters,
      lit_world\<lparr>queries := queries lit_world @
         [Fetch ''smart_room_readings'' [''light_level''], Exists 100 ''light'']\<rparr>)"
  using reentry_guard_inserts_nothing
          [of lit_world "[''light_level'']" "\<lparr>latest = Some bright_light_row, faults = {}\<rparr>"
              bright_light_row "''light''" "''smart_room_readings''" outlier_model
              tracked_light_filters]
  by (simp add: lit_world_def light_if_record_def bright_light_row_def)

text \<open>
  Claim C6 as stated fails. Two passes on the same bright light reading: the first
  writes one row per detector, the second stops at the guard, and the ledger ends with
  two rows for that reading, not one.
\<close>

theorem rerun_keeps_both_light_records:
  "anomalies (snd (run_passes [light_pass {}, light_pass {}]
      (initial_kalman_filters, initial_world []))) = [light_if_record, light_kf_record] \<and>
   an_timestamp light_if_record = an_timestamp light_kf_record \<and>
   an_sensor_type light_if_record = an_sensor_type light_kf_record \<and>
   light_if_record \<noteq> light_kf_record \<and>
   queries (snd (run_passes [light_pass {}, light_pass {}]
      (initial_kalman_filters, initial_world []))) =
     [Fetch ''smart_room_readings'' [''light_level''], Exists 100 ''light'', Classify [100],
      Fetch ''smart_room_readings'' [''light_level''], Exists 100 ''light'']"
proof -
  have second: "detection_pass (light_pass {})
          (initial_kalman_filters(''light'' := tracked_light_filters), lit_world) =
        (initial_kalman_filters(''light'' := tracked_light_filters),
         lit_world\<lparr>queries := queries lit_world @
           [Fetch ''smart_room_readings'' [''light_level''], Exists 100 ''light'']\<rparr>)"
    by (simp add: detection_pass_def light_pass_def run_detection_def detection_body_def
          fetch_latest_def count_existing_def no_verdict_def Let_def lit_world_def
          light_if_record_def light_kf_record_def bright_light_row_def)
  show ?thesis
    by (simp add: first_light_pass second lit_world_flags Let_def)
       (simp add: lit_world_def light_if_record_def light_kf_record_def)
qed

text \<open>
  Claim C5 as stated fails. One sound pass in which both detectors confirm leaves two
  different rows with the same timestamp and the same sensor type.
\<close>

theorem both_detectors_write_same_key:
  "anomalies (snd (run_passes [sound_pass {}] (initial_kalman_filters, initial_world [])))
     = [sound_if_record, sound_kf_record] \<and>
   an_timestamp sound_if_record = an_timestamp sound_kf_record \<and>
   an_sensor_type sound_if_record = an_sensor_type sound_kf_record \<and>
   sound_if_record \<noteq> sound_kf_record"
  by (simp add: first_sound_pass fired_world_flags Let_def)
     (simp add: fired_world_def sound_if_record_def sound_kf_record_def)

text \<open>
  Claim C2 as stated fails. In a sound pass whose Kalman INSERT raises, the exception
  is caught, but the Isolation Forest row, committed earlier in the same pass, is in
  the ledger afterwards.
\<close>

theorem committed_record_survives_failure:
  "caught (fst (run_detection ''sound'' [''rms'', ''zcr''] ''smart_room_readings'' outlier_model
     (initial_kalman_filters ''sound'') \<lparr>latest = Some loud_sound_row, faults = {AtInsertKF}\<rparr>
     (initial_world []))) = Some DatabaseError \<and>
   anomalies (initial_world []) = [] \<and>
   anomalies (snd (snd (run_detection ''sound'' [''rms'', ''zcr''] ''smart_room_readings''
     outlier_model (initial_kalman_filters ''sound'')
     \<lparr>latest = Some loud_sound_row, faults = {AtInsertKF}\<rparr> (initial_world []))))
     = [sound_if_record]"
  by (simp add: sound_pass_kf_insert_fails) (simp add: initial_world_def)

subsection \<open>Failures and the ledger\<close>

lemma failing_light_pass:
  "run_detection ''light'' [''light_level''] ''smart_room_readings'' outlier_model
     (initial_kalman_filters ''light'') (stormy_room ''light'') (initial_world []) =
   (\<lparr>isolation_forest_abnormal = True, kalman_filter_abnormal = False,
     caught = Some DatabaseError\<rparr>,
    tracked_light_filters, half_lit_world)"
  by (simp add: run_detection_def detection_body_def fetch_latest_def count_existing_def
       isolation_forest_check_def kalman_check_def act_when_both_agree_def insert_commit_def
       db_insert_def db_commit_def db_rollback_def mqtt_publish_def no_verdict_def nth_or_none_def
       light_loop bright_light_row_def outlier_model_def initial_world_def half_lit_world_def
       light_if_record_def light_kf_record_def stormy_room_def Let_def del: kalman_loop.simps)

lemma sound_pass_after_failure:
  "run_detection ''sound'' [''rms'', ''zcr''] ''smart_room_readings'' outlier_model
     (initial_kalman_filters ''sound'') (stormy_room ''sound'') half_lit_world =
   (\<lparr>isolation_forest_abnormal = True, kalman_filter_abnormal = True, caught = None\<rparr>,
    tracked_sound_filters, stormy_end_world)"
  by (simp add: run_detection_def detection_body_def fetch_latest_def count_existing_def
       isolation_forest_check_def kalman_check_def act_when_both_agree_def insert_commit_def
       db_insert_def db_commit_def db_rollback_def mqtt_publish_def no_verdict_def nth_or_none_def
       sound_loop loud_sound_row_def outlier_model_def half_lit_world_def stormy_end_world_def
       light_if_record_def sound_if_record_def sound_kf_record_def stormy_room_def Let_def
       del: kalman_loop.simps)

text \<open>
  Claim C2, as amended. Take a pass that starts with no open transaction, catches an
  exception, and whose handler can roll back. It ends with no open transaction:
  whatever was inserted and not yet committed is rolled back. The committed table has
  gained exactly the rows that the pass had committed before the failure, one for each
  local confirmation flag that was set, and nothing else. No exception leaves the
  call, and the main loop, like any sequence of passes, goes on with the sensors that
  follow, from the filters and the world that the failed pass has left.
\<close>

theorem failure_rolls_back_open_transaction:
  "pending w = [] \<and> uncaught w = None \<and> AtRollback \<notin> faults e \<and>
   run_detection s cols t m kfs e w = (v, kfs', w') \<and> caught v = Some err \<longrightarrow>
     pending w' = [] \<and> uncaught w' = None \<and>
     (\<exists>ifs kfr. anomalies w' = anomalies w @ ifs @ kfr \<and>
        (if isolation_forest_abnormal v
         then \<exists>row a. latest e = Some row \<and> ifs = [a] \<and> tagged s ''Isolation Forest'' row a
         else ifs = []) \<and>
        (if kalman_filter_abnormal v
         then \<exists>row a. latest e = Some row \<and> kfr = [a] \<and> tagged s ''Kalman Filter'' row a
         else kfr = [])) \<and>
     (t = ''smart_room_readings'' \<and> mdls s = Some m \<and> cfg_columns cfg = cols \<and>
      envs s = e \<and> K s = kfs \<longrightarrow>
        main_loop mdls envs ((s, cfg) # rest) (K, w) =
        main_loop mdls envs rest (K(s := kfs'), w')) \<and>
     (t = ''smart_room_readings'' \<and> p_sensor p = s \<and> p_columns p = cols \<and>
      p_model p = m \<and> p_env p = e \<and> K s = kfs \<longrightarrow>
        run_passes (p # ps) (K, w) = run_passes ps (K(s := kfs'), w'))"
proof
  assume a: "pending w = [] \<and> uncaught w = None \<and> AtRollback \<notin> faults e \<and>
   run_detection s cols t m kfs e w = (v, kfs', w') \<and> caught v = Some err"
  then have run: "run_detection s cols t m kfs e w = (v, kfs', w')" by simp
  have "ledger_delta s e v w w'"
    using run_detection_ledger[OF run] a by blast
  then have ledger: "pending w' = [] \<and>
     (\<exists>ifs kfr. anomalies w' = anomalies w @ ifs @ kfr \<and>
        (if isolation_forest_abnormal v
         then \<exists>row a. latest e = Some row \<and> ifs = [a] \<and> tagged s ''Isolation Forest'' row a
         else ifs = []) \<and>
        (if kalman_filter_abnormal v
         then \<exists>row a. latest e = Some row \<and> kfr = [a] \<and> tagged s ''Kalman Filter'' row a
         else kfr = []))"
    unfolding ledger_delta_def by blast
  have alive: "uncaught w' = None"
    using run_detection_uncaught[OF run] a by simp
  have loop: "main_loop mdls envs ((s, cfg) # rest) (K, w) =
        main_loop mdls envs rest (K(s := kfs'), w')"
    if "t = ''smart_room_readings'' \<and> mdls s = Some m \<and> cfg_columns cfg = cols \<and>
      envs s = e \<and> K s = kfs"
    using that run alive by (simp add: detection_pass_def Let_def)
  have passes: "run_passes (p # ps) (K, w) = run_passes ps (K(s := kfs'), w')"
    if "t = ''smart_room_readings'' \<and> p_sensor p = s \<and> p_columns p = cols \<and>
      p_model p = m \<and> p_env p = e \<and> K s = kfs"
    using that run alive by (simp add: detection_pass_def Let_def)
  show "pending w' = [] \<and> uncaught w' = None \<and>
     (\<exists>ifs kfr. anomalies w' = anomalies w @ ifs @ kfr \<and>
        (if isolation_forest_abnormal v
         then \<exists>row a. latest e = Some row \<and> ifs = [a] \<and> tagged s ''Isolation Forest'' row a
         else ifs = []) \<and>
        (if kalman_filter_abnormal v
         then \<exists>row a. latest e = Some row \<and> kfr = [a] \<and> tagged s ''Kalman Filter'' row a
         else kfr = [])) \<and>
     (t = ''smart_room_readings'' \<and> mdls s = Some m \<and> cfg_columns cfg = cols \<and>
      envs s = e \<and> K s = kfs \<longrightarrow>
        main_loop mdls envs ((s, cfg) # rest) (K, w) =
        main_loop mdls envs rest (K(s := kfs'), w')) \<and>
     (t = ''smart_room_readings'' \<and> p_sensor p = s \<and> p_columns p = cols \<and>
      p_model p = m \<and> p_env p = e \<and> K s = kfs \<longrightarrow>
        run_passes (p # ps) (K, w) = run_passes ps (K(s := kfs'), w'))"
    using ledger alive loop passes by blast
qed

text \<open>
  The main loop in a room where the commit of the Kalman row of the light pass raises:
  the inserted Kalman row is rolled back, the Isolation Forest row stays, and the loop
  goes on to the sound pass, which writes its two rows and fires the latch.
\<close>

theorem failure_rolls_back_open_transaction_witness:
  "pending (initial_world []) = [] \<and> uncaught (initial_world []) = None \<and>
   AtRollback \<notin> faults (stormy_room ''light'') \<and>
   run_detection ''light'' [''light_level''] ''smart_room_readings'' outlier_model
     (initial_kalman_filters ''light'') (stormy_room ''light'') (initial_world []) =
   (\<lparr>isolation_forest_abnormal = True, kalman_filter_abnormal = False,
     caught = Some DatabaseError\<rparr>,
    tracked_light_filters, half_lit_world) \<and>
   pending half_lit_world = [] \<and> uncaught half_lit_world = None \<and>
   anomalies half_lit_world = anomalies (initial_world []) @ [light_if_record] @ [] \<and>
   tagged ''light'' ''Isolation Forest'' bright_light_row light_if_record \<and>
   main_loop every_model stormy_room sensor_config (initial_kalman_filters, initial_world []) =
     main_loop every_model stormy_room
       [(''sound'', \<lparr>cfg_columns = [''rms'', ''zcr''], cfg_csv_file = ''trainingData.csv'',
                     cfg_training_source = ''csv''\<rparr>)]
       (initial_kalman_filters(''light'' := tracked_light_filters), half_lit_world) \<and>
   snd (main_loop every_model stormy_room sensor_config
          (initial_kalman_filters, initial_world [])) = stormy_end_world"
proof -
  have hyps: "pending (initial_world []) = [] \<and> uncaught (initial_world []) = None \<and>
      AtRollback \<notin> faults (stormy_room ''light'')"
    by (simp add: initial_world_def stormy_room_def)
  have left: "pending half_lit_world = [] \<and> uncaught half_lit_world = None \<and>
      anomalies half_lit_world = anomalies (initial_world []) @ [light_if_record] @ [] \<and>
      tagged ''light'' ''Isolation Forest'' bright_light_row light_if_record"
    by (simp add: half_lit_world_def initial_world_def tagged_def light_if_record_def
          bright_light_row_def)
  have cfg: "sensor_config =
      [(''light'', \<lparr>cfg_columns = [''light_level''], cfg_csv_file = ''trainingData.csv'',
                     cfg_training_source = ''csv''\<rparr>),
       (''sound'', \<lparr>cfg_columns = [''rms'', ''zcr''], cfg_csv_file = ''trainingData.csv'',
                     cfg_training_source = ''csv''\<rparr>)]"
    by (simp add: sensor_config_def)
  have goes_on: "main_loop every_model stormy_room sensor_config
        (initial_kalman_filters, initial_world []) =
      main_loop every_model stormy_room
       [(''sound'', \<lparr>cfg_columns = [''rms'', ''zcr''], cfg_csv_file = ''trainingData.csv'',
                     cfg_training_source = ''csv''\<rparr>)]
       (initial_kalman_filters(''light'' := tracked_light_filters), half_lit_world)"
    using failure_rolls_back_open_transaction
            [where w = "initial_world []" and e = "stormy_room ''light''" and s = "''light''"
               and cols = "[''light_level'']" and t = "''smart_room_readings''"
               and m = outlier_model and kfs = "initial_kalman_filters ''light''"
               and v = "\<lparr>isolation_forest_abnormal = True, kalman_filter_abnormal = False,
                         caught = Some DatabaseError\<rparr>"
               and kfs' = tracked_light_filters and w' = half_lit_world
               and err = DatabaseError and mdls = every_model and envs = stormy_room
               and K = initial_kalman_filters
               and cfg = "\<lparr>cfg_columns = [''light_level''],
                           cfg_csv_file = ''trainingData.csv'', cfg_training_source = ''csv''\<rparr>"
               and rest = "[(''sound'', \<lparr>cfg_columns = [''rms'', ''zcr''],
                              cfg_csv_file = ''trainingData.csv'',
                              cfg_training_source = ''csv''\<rparr>)]"]
          hyps failing_light_pass
    unfolding cfg by (simp add: every_model_def)
  have second: "detection_pass
        \<lparr>p_sensor = ''sound'', p_columns = [''rms'', ''zcr''], p_model = outlier_model,
         p_env = stormy_room ''sound''\<rparr>
        (initial_kalman_filters(''light'' := tracked_light_filters), half_lit_world) =
      (initial_kalman_filters(''light'' := tracked_light_filters,
                              ''sound'' := tracked_sound_filters), stormy_end_world)"
    by (simp add: detection_pass_def sound_pass_after_failure)
  have ends: "snd (main_loop every_model stormy_room sensor_config
          (initial_kalman_filters, initial_world [])) = stormy_end_world"
    unfolding goes_on
    by (simp add: every_model_def second Let_def stormy_end_world_def)
  show ?thesis
    using hyps failing_light_pass left goes_on ends by simp
qed

text \<open>
  The handler's rollback is outside the amended claim. When it raises, the exception
  leaves \<^verbatim>\<open>run_detection\<close> and the loop ends with the failed pass.
\<close>

lemma failed_rollback_ends_loop:
  assumes "\<not> abnormal_detected w" "AtRollback \<in> faults e"
    "run_detection s cols ''smart_room_readings'' m (K s) e w = (v, kfs', w')"
    "caught v = Some err" "mdls s = Some m" "cfg_columns cfg = cols" "envs s = e"
  shows "uncaught w' = Some DatabaseError \<and>
         main_loop mdls envs ((s, cfg) # rest) (K, w) = (K(s := kfs'), w')"
proof -
  obtain v1 k1 w1 where b:
    "detection_body s cols ''smart_room_readings'' m (K s) e w = (v1, k1, w1)"
    by (cases "detection_body s cols ''smart_room_readings'' m (K s) e w") auto
  have u: "uncaught w' = Some DatabaseError"
    using assms(1-4) b
    by (auto simp add: run_detection_def db_rollback_def split: option.splits)
  then show ?thesis
    using assms(3,5-7) by (simp add: detection_pass_def Let_def)
qed

lemma ledger_delta_distinct:
  assumes "ledger_delta s e v w w'" "distinct (map ledger_key (anomalies w))"
  shows "distinct (map ledger_key (anomalies w'))"
proof -
  from assms(1) obtain ifs kfr where d:
    "anomalies w' = anomalies w @ ifs @ kfr"
    "if isolation_forest_abnormal v
     then \<exists>row a. latest e = Some row \<and> ifs = [a] \<and> tagged s ''Isolation Forest'' row a
     else ifs = []"
    "if kalman_filter_abnormal v
     then \<exists>row a. latest e = Some row \<and> kfr = [a] \<and> tagged s ''Kalman Filter'' row a
     else kfr = []"
    unfolding ledger_delta_def by blast
  show ?thesis
  proof (cases "isolation_forest_abnormal v \<or> kalman_filter_abnormal v")
    case False
    with d assms(2) show ?thesis by simp
  next
    case True
    with assms(1) obtain row where row: "latest e = Some row"
      "filter (\<lambda>a. an_timestamp a = r_timestamp row \<and> an_sensor_type a = s) (anomalies w) = []"
      unfolding ledger_delta_def by blast
    have fresh: "\<And>a b. a \<in> set (anomalies w) \<Longrightarrow> tagged s mth row b \<Longrightarrow> ledger_key a \<noteq> ledger_key b"
      for mth
      using row(2) by (auto simp: filter_empty_conv tagged_def ledger_key_def)
    have newkeys: "\<And>b. b \<in> set (ifs @ kfr) \<Longrightarrow>
        tagged s ''Isolation Forest'' row b \<or> tagged s ''Kalman Filter'' row b"
      using d(2,3) row(1) by (auto split: if_splits)
    have methods: "''Isolation Forest'' \<noteq> ''Kalman Filter''" by simp
    have dn: "distinct (map ledger_key (ifs @ kfr))"
    proof (cases "isolation_forest_abnormal v")
      case False
      with d(2) have "ifs = []" by simp
      moreover have "length kfr \<le> 1" using d(3) by (auto split: if_splits)
      ultimately show ?thesis by (cases kfr) simp_all
    next
      case ifT: True
      with d(2) obtain a ra where a: "ifs = [a]" "tagged s ''Isolation Forest'' ra a" by auto
      show ?thesis
      proof (cases "kalman_filter_abnormal v")
        case False
        with d(3) a show ?thesis by simp
      next
        case True
        with d(3) obtain b rb where b: "kfr = [b]" "tagged s ''Kalman Filter'' rb b" by auto
        have "an_detection_method a \<noteq> an_detection_method b"
          using a(2) b(2) methods unfolding tagged_def by metis
        then have "ledger_key a \<noteq> ledger_key b" unfolding ledger_key_def by simp
        with a b show ?thesis by simp
      qed
    qed
    have disj: "set (map ledger_key (anomalies w)) \<inter> set (map ledger_key (ifs @ kfr)) = {}"
      using fresh newkeys by fastforce
    have "distinct (map ledger_key (anomalies w) @ map ledger_key (ifs @ kfr))"
      using assms(2) dn disj by (simp only: distinct_append)
    then show ?thesis unfolding d(1) by simp
  qed
qed

lemma detection_pass_distinct:
  assumes "pending (snd st) = []" "distinct (map ledger_key (anomalies (snd st)))"
  shows "pending (snd (detection_pass p st)) = [] \<and>
         distinct (map ledger_key (anomalies (snd (detection_pass p st))))"
proof -
  obtain v kfs' w' where r: "run_detection (p_sensor p) (p_columns p) ''smart_room_readings''
      (p_model p) (fst st (p_sensor p)) (p_env p) (snd st) = (v, kfs', w')"
    by (cases "run_detection (p_sensor p) (p_columns p) ''smart_room_readings''
      (p_model p) (fst st (p_sensor p)) (p_env p) (snd st)") auto
  note ld = run_detection_ledger[OF r assms(1)]
  have "snd (detection_pass p st) = w'" using r by (simp add: detection_pass_def)
  then show ?thesis
    using ld ledger_delta_distinct[OF ld assms(2)] by (simp add: ledger_delta_def)
qed

text \<open>
  Claim C5, as amended. If no transaction is open and no two ledger rows share
  timestamp, sensor type and detection method, then the same holds after any sequence
  of passes.
\<close>

theorem ledger_keys_stay_distinct:
  "pending (snd st) = [] \<and> distinct (map ledger_key (anomalies (snd st))) \<longrightarrow>
     pending (snd (run_passes ps st)) = [] \<and>
     distinct (map ledger_key (anomalies (snd (run_passes ps st))))"
proof (induction ps arbitrary: st)
  case Nil
  then show ?case by simp
next
  case (Cons p ps)
  show ?case
  proof
    assume a: "pending (snd st) = [] \<and> distinct (map ledger_key (anomalies (snd st)))"
    then have "pending (snd (detection_pass p st)) = [] \<and>
         distinct (map ledger_key (anomalies (snd (detection_pass p st))))"
      using detection_pass_distinct[of st p] by simp
    with Cons.IH[of "detection_pass p st"]
    show "pending (snd (run_passes (p # ps) st)) = [] \<and>
     distinct (map ledger_key (anomalies (snd (run_passes (p # ps) st))))"
      by (simp add: Let_def)
  qed
qed

text \<open>From the empty ledger, after the sound pass in which both detectors confirm.\<close>

theorem ledger_keys_stay_distinct_witness:
  "pending (initial_world []) = [] \<and>
   distinct (map ledger_key (anomalies (initial_world []))) \<and>
   map ledger_key (anomalies (snd (run_passes [sound_pass {}]
       (initial_kalman_filters, initial_world [])))) =
     [(100, ''sound'', ''Isolation Forest''), (100, ''sound'', ''Kalman Filter'')] \<and>
   distinct (map ledger_key (anomalies (snd (run_passes [sound_pass {}]
       (initial_kalman_filters, initial_world [])))))"
  using ledger_keys_stay_distinct
          [of "(initial_kalman_filters, initial_world [])" "[sound_pass {}]"]
  by (simp add: first_sound_pass fired_world_flags Let_def)
     (simp add: initial_world_def fired_world_def ledger_key_def sound_if_record_def
        sound_kf_record_def)

subsection \<open>The confirmation policy of the classifier\<close>

lemma if_check_sound:
  assumes "AtPredict \<notin> faults e" "AtInsertIF \<notin> faults e" "AtCommitIF \<notin> faults e"
    "mdl [rms, zcr] = - 1"
  shows "\<exists>w2. isolation_forest_check ''sound'' [''rms'', ''zcr''] mdl e row [rms, zcr] w =
           (Inr ((rms < 0.01 \<or> rms > 0.03) \<and> (zcr < 0.003 \<or> zcr > 0.02)), w2)"
  using assms
  by (simp add: isolation_forest_check_def insert_commit_def db_insert_def db_commit_def Let_def)

lemma if_check_light:
  assumes "AtPredict \<notin> faults e" "AtInsertIF \<notin> faults e" "AtCommitIF \<notin> faults e"
    "mdl vs = - 1" "vs \<noteq> []"
  shows "\<exists>w2. isolation_forest_check ''light'' cols mdl e row vs w = (Inr True, w2)"
  using assms
  by (simp add: isolation_forest_check_def insert_commit_def db_insert_def db_commit_def Let_def)

lemma run_detection_if_flag:
  assumes "\<not> abnormal_detected w" "cols \<noteq> []" "AtFetch \<notin> faults e" "AtExists \<notin> faults e"
    "latest e = Some row"
    "filter (\<lambda>a. an_timestamp a = r_timestamp row \<and> an_sensor_type a = s)
        (anomalies w @ pending w) = []"
    "to_floats (r_values row) = Inr vs"
    "\<And>w1. \<exists>w2. isolation_forest_check s cols m e row vs w1 = (Inr b, w2)"
    "run_detection s cols t m kfs e w = (v, kfs', w')"
  shows "isolation_forest_abnormal v = b"
proof -
  let ?w1 = "w\<lparr>queries := queries w @ [Fetch t cols]\<rparr>"
  let ?w2 = "?w1\<lparr>queries := queries ?w1 @ [Exists (r_timestamp row) s]\<rparr>"
  from assms(8)[of ?w2] obtain w3 where
    i: "isolation_forest_check s cols m e row vs ?w2 = (Inr b, w3)" by blast
  have f: "fetch_latest e t cols w = (Inr (Some row), ?w1)"
    using assms(2,3,5) by (simp add: fetch_latest_def Let_def)
  have c: "count_existing e (r_timestamp row) s ?w1 = (Inr 0, ?w2)"
    using assms(4,6) by (simp add: count_existing_def Let_def del: filter_append)
  have "isolation_forest_abnormal (fst (detection_body s cols t m kfs e w)) = b"
    using i by (auto simp add: detection_body_def f c assms(7) split: sum.splits prod.splits)
  then show ?thesis
    using assms(1,9)
    by (auto simp add: run_detection_def split: prod.splits option.splits sum.splits)
qed

lemma ledger_delta_if_records:
  assumes "ledger_delta s e v w w'" "latest e = Some row"
  shows "\<exists>new. filter (\<lambda>a. an_detection_method a = ''Isolation Forest'') (anomalies w') =
               filter (\<lambda>a. an_detection_method a = ''Isolation Forest'') (anomalies w) @ new \<and>
             (if isolation_forest_abnormal v
              then \<exists>a. new = [a] \<and> tagged s ''Isolation Forest'' row a
              else new = [])"
proof -
  from assms(1) obtain ifs kfr where d:
    "anomalies w' = anomalies w @ ifs @ kfr"
    "if isolation_forest_abnormal v
     then \<exists>row a. latest e = Some row \<and> ifs = [a] \<and> tagged s ''Isolation Forest'' row a
     else ifs = []"
    "if kalman_filter_abnormal v
     then \<exists>row a. latest e = Some row \<and> kfr = [a] \<and> tagged s ''Kalman Filter'' row a
     else kfr = []"
    unfolding ledger_delta_def by blast
  have k: "filter (\<lambda>a. an_detection_method a = ''Isolation Forest'') kfr = []"
    using d(3) by (auto simp: tagged_def split: if_splits)
  have i: "filter (\<lambda>a. an_detection_method a = ''Isolation Forest'') ifs = ifs"
    using d(2) by (auto simp: tagged_def split: if_splits)
  have shape: "if isolation_forest_abnormal v
              then \<exists>a. ifs = [a] \<and> tagged s ''Isolation Forest'' row a
              else ifs = []"
    using d(2) assms(2) by (auto split: if_splits)
  have "filter (\<lambda>a. an_detection_method a = ''Isolation Forest'') (anomalies w') =
        filter (\<lambda>a. an_detection_method a = ''Isolation Forest'') (anomalies w) @ ifs"
    unfolding d(1) by (simp add: k i)
  with shape show ?thesis by blast
qed

text \<open>
  Claim C7. Take a pass that reaches the classifier (latch open, no open transaction,
  a reading fetched, no ledger row for it yet, all values numeric) in which the
  classifier answers outlier and the Isolation Forest INSERT and commit do not fail.
  For the sound sensor with its columns rms and zcr, the pass ends with the classifier
  confirmation set if and only if rms is outside [0.01, 0.03] and zcr is outside
  [0.003, 0.02]. For the light sensor the confirmation is always set. In both cases
  the rows of the ledger tagged Isolation Forest grow by exactly one row for this
  reading when the confirmation is set and by none otherwise, whatever the filters,
  the Kalman section and the rest of the pass do.
\<close>

theorem classifier_confirmation_policy:
  "\<not> abnormal_detected w \<and> pending w = [] \<and>
   AtFetch \<notin> faults e \<and> AtExists \<notin> faults e \<and> AtPredict \<notin> faults e \<and>
   AtInsertIF \<notin> faults e \<and> AtCommitIF \<notin> faults e \<and>
   latest e = Some row \<and>
   filter (\<lambda>a. an_timestamp a = r_timestamp row \<and> an_sensor_type a = s) (anomalies w) = [] \<and>
   to_floats (r_values row) = Inr vs \<and> mdl vs = - 1 \<and>
   run_detection s cols t mdl kfs e w = (v, kfs', w') \<longrightarrow>
     (s = ''sound'' \<and> cols = [''rms'', ''zcr''] \<and> vs = [rms, zcr] \<longrightarrow>
        (isolation_forest_abnormal v \<longleftrightarrow>
           (rms < 0.01 \<or> rms > 0.03) \<and> (zcr < 0.003 \<or> zcr > 0.02))) \<and>
     (s = ''light'' \<and> cols \<noteq> [] \<and> vs \<noteq> [] \<longrightarrow> isolation_forest_abnormal v) \<and>
     (\<exists>new. filter (\<lambda>a. an_detection_method a = ''Isolation Forest'') (anomalies w') =
             filter (\<lambda>a. an_detection_method a = ''Isolation Forest'') (anomalies w) @ new \<and>
           (if isolation_forest_abnormal v
            then \<exists>a. new = [a] \<and> tagged s ''Isolation Forest'' row a
            else new = []))"
proof
  assume a: "\<not> abnormal_detected w \<and> pending w = [] \<and>
   AtFetch \<notin> faults e \<and> AtExists \<notin> faults e \<and> AtPredict \<notin> faults e \<and>
   AtInsertIF \<notin> faults e \<and> AtCommitIF \<notin> faults e \<and>
   latest e = Some row \<and>
   filter (\<lambda>a. an_timestamp a = r_timestamp row \<and> an_sensor_type a = s) (anomalies w) = [] \<and>
   to_floats (r_values row) = Inr vs \<and> mdl vs = - 1 \<and>
   run_detection s cols t mdl kfs e w = (v, kfs', w')"
  then have nodup: "filter (\<lambda>a. an_timestamp a = r_timestamp row \<and> an_sensor_type a = s)
        (anomalies w @ pending w) = []" by simp
  have run: "run_detection s cols t mdl kfs e w = (v, kfs', w')" using a by simp
  have sound: "isolation_forest_abnormal v \<longleftrightarrow>
           (rms < 0.01 \<or> rms > 0.03) \<and> (zcr < 0.003 \<or> zcr > 0.02)"
    if h: "s = ''sound'' \<and> cols = [''rms'', ''zcr''] \<and> vs = [rms, zcr]"
  proof -
    have chk: "\<And>w1. \<exists>w2. isolation_forest_check s cols mdl e row vs w1 =
           (Inr ((rms < 0.01 \<or> rms > 0.03) \<and> (zcr < 0.003 \<or> zcr > 0.02)), w2)"
      using if_check_sound[of e mdl rms zcr row] a h by simp
    have c: "cols \<noteq> []" using h by simp
    show ?thesis
      using run_detection_if_flag[OF _ c _ _ _ nodup _ chk run] a by simp
  qed
  have light: "isolation_forest_abnormal v" if h: "s = ''light'' \<and> cols \<noteq> [] \<and> vs \<noteq> []"
  proof -
    have chk: "\<And>w1. \<exists>w2. isolation_forest_check s cols mdl e row vs w1 = (Inr True, w2)"
      using if_check_light[of e mdl vs cols row] a h by simp
    have c: "cols \<noteq> []" using h by simp
    show ?thesis
      using run_detection_if_flag[OF _ c _ _ _ nodup _ chk run] a by simp
  qed
  have ld: "ledger_delta s e v w w'" using run_detection_ledger[OF run] a by simp
  have lat: "latest e = Some row" using a by simp
  show "(s = ''sound'' \<and> cols = [''rms'', ''zcr''] \<and> vs = [rms, zcr] \<longrightarrow>
        (isolation_forest_abnormal v \<longleftrightarrow>
           (rms < 0.01 \<or> rms > 0.03) \<and> (zcr < 0.003 \<or> zcr > 0.02))) \<and>
     (s = ''light'' \<and> cols \<noteq> [] \<and> vs \<noteq> [] \<longrightarrow> isolation_forest_abnormal v) \<and>
     (\<exists>new. filter (\<lambda>a. an_detection_method a = ''Isolation Forest'') (anomalies w') =
             filter (\<lambda>a. an_detection_method a = ''Isolation Forest'') (anomalies w) @ new \<and>
           (if isolation_forest_abnormal v
            then \<exists>a. new = [a] \<and> tagged s ''Isolation Forest'' row a
            else new = []))"
    using sound light ledger_delta_if_records[OF ld lat] by blast
qed

subsection \<open>Training with too few samples\<close>

lemma train_model_too_few:
  assumes "read_csv (cfg_csv_file cfg) = Inr df" "length (normal_rows s df) < 3"
  shows "train_model s cfg read_csv fit_fn = None"
  using assms by (simp add: train_model_def fit_if_enough_def split: option.splits)

lemma main_loop_skip:
  "mdls s = None \<Longrightarrow>
     main_loop mdls envs cfgs st = main_loop mdls envs (filter (\<lambda>sc. fst sc \<noteq> s) cfgs) st"
proof (induction cfgs arbitrary: st)
  case Nil
  then show ?case by simp
next
  case (Cons sc cfgs)
  obtain s' c where sc: "sc = (s', c)" by (cases sc)
  show ?case using Cons by (cases "s' = s") (simp_all add: sc Let_def split: option.splits)
qed

lemma detection_pass_other:
  "p_sensor p \<noteq> s \<Longrightarrow> fst (detection_pass p st) s = fst st s"
  by (simp add: detection_pass_def split: prod.splits)

lemma main_loop_untouched:
  "s \<notin> fst ` set cfgs \<Longrightarrow> fst (main_loop mdls envs cfgs st) s = fst st s"
proof (induction cfgs arbitrary: st)
  case Nil
  then show ?case by simp
next
  case (Cons sc cfgs)
  obtain s' c where sc: "sc = (s', c)" by (cases sc)
  with Cons.prems have ne: "s' \<noteq> s" "s \<notin> fst ` set cfgs" by auto
  show ?case
    using Cons.IH[OF ne(2)] ne(1)
    by (simp add: sc detection_pass_other Let_def split: option.splits)
qed

text \<open>
  Claim C1, as amended. When the training file is read and fewer than three of its
  rows are normal and inside the range of a configured sensor, \<^verbatim>\<open>train_model\<close>
  returns \<^verbatim>\<open>None\<close> and raises nothing, the sensor gets no entry in \<^verbatim>\<open>models\<close>, and
  the main loop skips it: the script does what it would do with that sensor removed
  from the configuration, and the sensor's filters stay in their initial state.
\<close>

theorem untrained_sensor_is_skipped:
  "map_of sensor_config s = Some cfg \<and> read_csv (cfg_csv_file cfg) = Inr df \<and>
   length (normal_rows s df) < 3 \<longrightarrow>
     train_model s cfg read_csv fit_fn = None \<and>
     models read_csv fit_fn s = None \<and>
     main_program read_csv fit_fn envs table =
       main_loop (models read_csv fit_fn) envs (filter (\<lambda>sc. fst sc \<noteq> s) sensor_config)
         (initial_kalman_filters, initial_world table) \<and>
     fst (main_program read_csv fit_fn envs table) s = initial_kalman_filters s"
proof
  assume a: "map_of sensor_config s = Some cfg \<and> read_csv (cfg_csv_file cfg) = Inr df \<and>
   length (normal_rows s df) < 3"
  then have t: "train_model s cfg read_csv fit_fn = None"
    using train_model_too_few[of read_csv cfg df s fit_fn] by simp
  then have m: "models read_csv fit_fn s = None" using a by (simp add: models_def)
  have eq: "main_program read_csv fit_fn envs table =
       main_loop (models read_csv fit_fn) envs (filter (\<lambda>sc. fst sc \<noteq> s) sensor_config)
         (initial_kalman_filters, initial_world table)"
    unfolding main_program_def by (rule main_loop_skip[of "models read_csv fit_fn" s, OF m])
  have "s \<notin> fst ` set (filter (\<lambda>sc. fst sc \<noteq> s) sensor_config)" by auto
  from main_loop_untouched[OF this]
  have "fst (main_program read_csv fit_fn envs table) s = initial_kalman_filters s"
    unfolding eq by simp
  with t m eq show "train_model s cfg read_csv fit_fn = None \<and>
     models read_csv fit_fn s = None \<and>
     main_program read_csv fit_fn envs table =
       main_loop (models read_csv fit_fn) envs (filter (\<lambda>sc. fst sc \<noteq> s) sensor_config)
         (initial_kalman_filters, initial_world table) \<and>
     fst (main_program read_csv fit_fn envs table) s = initial_kalman_filters s"
    by blast
qed

lemma small_csv_sound_rows: "length (normal_rows ''sound'' small_csv) = 2"
  by (simp add: normal_rows_def small_csv_def between_def Let_def)

lemma small_csv_models:
  "models read_small_csv always_fit ''sound'' = None"
  "models read_small_csv always_fit ''light'' = Some outlier_model"
  by (simp_all add: models_def sensor_config_def train_model_def read_small_csv_def
        normal_rows_def small_csv_def between_def fit_if_enough_def always_fit_def column_of_def
        Let_def)

lemma small_csv_main:
  "main_program read_small_csv always_fit loud_room [] =
     (initial_kalman_filters,
      (initial_world [])\<lparr>queries := [Fetch ''smart_room_readings'' [''light_level'']]\<rparr>)"
proof -
  have pass: "detection_pass
           \<lparr>p_sensor = ''light'', p_columns = [''light_level''], p_model = outlier_model,
            p_env = loud_room ''light''\<rparr> (initial_kalman_filters, initial_world []) =
        (initial_kalman_filters,
         (initial_world [])\<lparr>queries := [Fetch ''smart_room_readings'' [''light_level'']]\<rparr>)"
    by (simp add: detection_pass_def run_detection_def detection_body_def fetch_latest_def
          loud_room_def no_verdict_def initial_world_def Let_def)
  show ?thesis
    by (simp add: main_program_def sensor_config_def small_csv_models pass Let_def)
qed

text \<open>
  Claim C1 as stated fails. With two normal sound rows the sound sensor has no model;
  the room holds a loud sound reading on which the Kalman section alone would count
  both features abnormal, yet the script never fetches it: the sound filters are
  untouched, the ledger is empty, and the only query is the fetch of the light pass.
\<close>

theorem untrained_sound_is_never_checked:
  "length (normal_rows ''sound'' small_csv) = 2 \<and>
   train_model ''sound''
     \<lparr>cfg_columns = [''rms'', ''zcr''], cfg_csv_file = ''trainingData.csv'',
      cfg_training_source = ''csv''\<rparr> read_small_csv always_fit = None \<and>
   latest (loud_room ''sound'') = Some loud_sound_row \<and>
   kalman_loop [''rms'', ''zcr''] 0 [1 / 20, 3 / 100] (initial_kalman_filters ''sound'') 0 =
     (Inr 2, tracked_sound_filters) \<and>
   fst (main_program read_small_csv always_fit loud_room []) ''sound'' =
     initial_kalman_filters ''sound'' \<and>
   initial_kalman_filters ''sound'' \<noteq> tracked_sound_filters \<and>
   anomalies (snd (main_program read_small_csv always_fit loud_room [])) = [] \<and>
   queries (snd (main_program read_small_csv always_fit loud_room [])) =
     [Fetch ''smart_room_readings'' [''light_level'']]"
proof -
  have a: "train_model ''sound''
     \<lparr>cfg_columns = [''rms'', ''zcr''], cfg_csv_file = ''trainingData.csv'',
      cfg_training_source = ''csv''\<rparr> read_small_csv always_fit = None"
    using small_csv_models(1) by (simp add: models_def sensor_config_def)
  have b: "initial_kalman_filters ''sound'' \<noteq> tracked_sound_filters"
    by (simp add: initial_sound_filters tracked_sound_filters_def)
  show ?thesis
    using a b
    by (simp add: small_csv_sound_rows small_csv_main sound_loop loud_room_def initial_world_def
          del: kalman_loop.simps)
qed

text \<open>The sound sensor with the small training file.\<close>

theorem untrained_sensor_is_skipped_witness:
  "map_of sensor_config ''sound'' =
     Some \<lparr>cfg_columns = [''rms'', ''zcr''], cfg_csv_file = ''trainingData.csv'',
           cfg_training_source = ''csv''\<rparr> \<and>
   read_small_csv ''trainingData.csv'' = Inr small_csv \<and>
   length (normal_rows ''sound'' small_csv) < 3 \<and>
   models read_small_csv always_fit ''sound'' = None \<and>
   main_program read_small_csv always_fit loud_room [] =
     main_loop (models read_small_csv always_fit) loud_room
       (filter (\<lambda>sc. fst sc \<noteq> ''sound'') sensor_config)
       (initial_kalman_filters, initial_world []) \<and>
   fst (main_program read_small_csv always_fit loud_room []) ''sound'' =
     initial_kalman_filters ''sound''"
proof -
  have h: "map_of sensor_config ''sound'' =
     Some \<lparr>cfg_columns = [''rms'', ''zcr''], cfg_csv_file = ''trainingData.csv'',
           cfg_training_source = ''csv''\<rparr>"
    by (simp add: sensor_config_def)
  have r: "read_small_csv (cfg_csv_file \<lparr>cfg_columns = [''rms'', ''zcr''],
             cfg_csv_file = ''trainingData.csv'', cfg_training_source = ''csv''\<rparr>) = Inr small_csv"
      "read_small_csv ''trainingData.csv'' = Inr small_csv"
    by (simp_all add: read_small_csv_def)
  have l: "length (normal_rows ''sound'' small_csv) < 3"
    by (simp add: small_csv_sound_rows)
  show ?thesis
    using untrained_sensor_is_skipped
          [where s = "''sound''" and read_csv = read_small_csv and df = small_csv
             and cfg = "\<lparr>cfg_columns = [''rms'', ''zcr''], cfg_csv_file = ''trainingData.csv'',
                         cfg_training_source = ''csv''\<rparr>"
             and fit_fn = always_fit and envs = loud_room and table = "[]"]
      h r l
    by blast
qed

text \<open>
  The loud sound reading, outside both bands, and the bright light reading: each pass
  sets the classifier confirmation and adds one Isolation Forest row.
\<close>

theorem classifier_confirmation_policy_witness:
  "run_detection ''sound'' [''rms'', ''zcr''] ''smart_room_readings'' outlier_model
     (initial_kalman_filters ''sound'') \<lparr>latest = Some loud_sound_row, faults = {}\<rparr>
     (initial_world []) =
   (\<lparr>isolation_forest_abnormal = True, kalman_filter_abnormal = True, caught = None\<rparr>,
    tracked_sound_filters, fired_world) \<and>
   to_floats (r_values loud_sound_row) = Inr [0.05, 0.03] \<and>
   ((0.05 :: real) < 0.01 \<or> (0.05 :: real) > 0.03) \<and> ((0.03 :: real) < 0.003 \<or> (0.03 :: real) > 0.02) \<and>
   (\<exists>new. filter (\<lambda>a. an_detection_method a = ''Isolation Forest'') (anomalies fired_world) =
           filter (\<lambda>a. an_detection_method a = ''Isolation Forest'') (anomalies (initial_world []))
             @ new \<and>
          (\<exists>a. new = [a] \<and> tagged ''sound'' ''Isolation Forest'' loud_sound_row a)) \<and>
   run_detection ''light'' [''light_level''] ''smart_room_readings'' outlier_model
     (initial_kalman_filters ''light'') \<lparr>latest = Some bright_light_row, faults = {}\<rparr>
     (initial_world []) =
   (\<lparr>isolation_forest_abnormal = True, kalman_filter_abnormal = True, caught = None\<rparr>,
    tracked_light_filters, lit_world) \<and>
   to_floats (r_values bright_light_row) = Inr [100] \<and>
   (\<exists>new. filter (\<lambda>a. an_detection_method a = ''Isolation Forest'') (anomalies lit_world) =
           filter (\<lambda>a. an_detection_method a = ''Isolation Forest'') (anomalies (initial_world []))
             @ new \<and>
          (\<exists>a. new = [a] \<and> tagged ''light'' ''Isolation Forest'' bright_light_row a))"
proof -
  have s: "run_detection ''sound'' [''rms'', ''zcr''] ''smart_room_readings'' outlier_model
     (initial_kalman_filters ''sound'') \<lparr>latest = Some loud_sound_row, faults = {}\<rparr>
     (initial_world []) =
   (\<lparr>isolation_forest_abnormal = True, kalman_filter_abnormal = True, caught = None\<rparr>,
    tracked_sound_filters, fired_world)"
    by (simp add: sound_pass_agrees fired_world_def)
  have fs: "to_floats (r_values loud_sound_row) = Inr [0.05, 0.03]"
    by (simp add: loud_sound_row_def)
  have fl: "to_floats (r_values bright_light_row) = Inr [100]"
    by (simp add: bright_light_row_def)
  note ws = classifier_confirmation_policy
     [where w = "initial_world []" and e = "\<lparr>latest = Some loud_sound_row, faults = {}\<rparr>"
        and row = loud_sound_row and s = "''sound''" and vs = "[0.05, 0.03]"
        and mdl = outlier_model and cols = "[''rms'', ''zcr'']" and t = "''smart_room_readings''"
        and kfs = "initial_kalman_filters ''sound''"
        and v = "\<lparr>isolation_forest_abnormal = True, kalman_filter_abnormal = True,
                  caught = None\<rparr>"
        and kfs' = tracked_sound_filters and w' = fired_world and rms = "0.05" and zcr = "0.03"]
  note wl = classifier_confirmation_policy
     [where w = "initial_world []" and e = "\<lparr>latest = Some bright_light_row, faults = {}\<rparr>"
        and row = bright_light_row and s = "''light''" and vs = "[100]"
        and mdl = outlier_model and cols = "[''light_level'']" and t = "''smart_room_readings''"
        and kfs = "initial_kalman_filters ''light''"
        and v = "\<lparr>isolation_forest_abnormal = True, kalman_filter_abnormal = True,
                  caught = None\<rparr>"
        and kfs' = tracked_light_filters and w' = lit_world]
  show ?thesis
    using ws wl s fs fl light_pass_agrees
    by (simp add: initial_world_def outlier_model_def)
qed

end
